theory Spec2Isabelle
  imports Main "HOL-Library.AList" "HOL-Library.Sublist"
begin

section \<open>The loader of resolve-dependencies (src/node-loader.ts)\<close>

text \<open>
  The module \<^verbatim>\<open>node-loader.ts\<close> exports \<^verbatim>\<open>resolveSync\<close>, \<^verbatim>\<open>resolve\<close> and \<^verbatim>\<open>load\<close>
  and keeps \<^verbatim>\<open>expand\<close> private. Everything it imports (the enhanced-resolve resolver,
  \<^verbatim>\<open>fs\<close>, \<^verbatim>\<open>path\<close>, \<^verbatim>\<open>globby\<close>, and the helpers of \<^verbatim>\<open>./file\<close> and \<^verbatim>\<open>./gather-deps\<close>) is a
  field of the record \<open>env\<close> below: the functions of this file are embedded once, for
  every behaviour of their collaborators. The one exception is \<^verbatim>\<open>createFile\<close>, the
  constructor of a File, which is a definition.
\<close>

subsection \<open>Strings\<close>

text \<open>
  JavaScript tests a string for truth by its length: only \<^verbatim>\<open>''\<close> is falsy.
  \<^verbatim>\<open>s.startsWith(p)\<close> and \<^verbatim>\<open>s.endsWith(p)\<close> are the prefix and suffix orders on lists.
\<close>

definition truthy :: "string \<Rightarrow> bool" where
  "truthy s = (s \<noteq> [])"

definition startsWith :: "string \<Rightarrow> string \<Rightarrow> bool" where
  "startsWith s p = prefix p s"

definition endsWith :: "string \<Rightarrow> string \<Rightarrow> bool" where
  "endsWith s p = suffix p s"

subsection \<open>Data model\<close>

text \<open>
  A package manifest (\<^verbatim>\<open>pkg: any\<close>, the parsed \<^verbatim>\<open>package.json\<close>). The loader reads
  \<^verbatim>\<open>dependencies\<close> itself; \<^verbatim>\<open>files\<close> is what it builds for the inherited context; the
  remaining content is only read by the helpers \<^verbatim>\<open>nodeModuleGlobs\<close> and \<^verbatim>\<open>extraGlobs\<close>.
  An absent or falsy member is \<open>None\<close>.
\<close>

record manifest =
  dependencies :: "(string \<times> string) list option"
  files :: "string list option"
  other :: "(string \<times> string list) list"

text \<open>
  \<^verbatim>\<open>File\<close>. The member \<^verbatim>\<open>deps: { [key: string]: File | null }\<close> is an association list
  of its own properties, in insertion order with unique keys; a value \<open>None\<close> is \<^verbatim>\<open>null\<close>,
  and \<open>Some v\<close> is an object \<open>v\<close> (hence truthy): a resolved File, or a function that
  the object inherits from \<^verbatim>\<open>Object.prototype\<close> once it was stored under its own name.
\<close>

record 'f File =
  absPath :: string
  realPath :: "string option"
  size :: "nat option"
  realSize :: "nat option"
  contents :: "string option"
  deps :: "(string \<times> 'f option) list"
  variableImports :: bool
  package :: "manifest option"
  moduleRoot :: "string option"
  contextExpanded :: bool

text \<open>\<^verbatim>\<open>type Resolved = { absPath: string; pkgPath: string; pkg: any; warning: string }\<close>.
  \<open>pkgPath\<close> is \<open>None\<close> when the resolver's data has no \<^verbatim>\<open>descriptionFilePath\<close>
  (\<^verbatim>\<open>undefined\<close>); \<open>pkg\<close> is \<open>None\<close> for \<^verbatim>\<open>null\<close> and \<^verbatim>\<open>undefined\<close>.\<close>

record resolved =
  res_absPath :: string
  res_pkgPath :: "string option"
  res_pkg :: "manifest option"
  res_warning :: string

text \<open>What the resolver hands to its callback \<^verbatim>\<open>(err, path, data)\<close>: an error with its
  \<^verbatim>\<open>message\<close>, or a path with \<^verbatim>\<open>data.descriptionFilePath\<close> and
  \<^verbatim>\<open>data.descriptionFileData\<close>.\<close>

datatype callback_args =
  Err string
  | Found string "string option" "manifest option"

text \<open>\<^verbatim>\<open>JsLoaderOptions\<close> and its optional \<^verbatim>\<open>context\<close>.\<close>

datatype expand_mode = ExpandNone | ExpandVariable | ExpandAll

record load_context =
  ctx_moduleRoot :: string
  ctx_globs :: "string list option"
  ctx_expanded :: bool

record options =
  loadContent :: bool
  expand_opt :: expand_mode
  isEntry :: bool
  context_opt :: "load_context option"

definition defaultOptions :: options where
  "defaultOptions = \<lparr>loadContent = True, expand_opt = ExpandNone, isEntry = False,
     context_opt = None\<rparr>"

text \<open>\<^verbatim>\<open>fs.Stats\<close>, as far as \<^verbatim>\<open>load\<close> reads it.\<close>

record stats =
  isSymbolicLink :: bool
  st_size :: nat

text \<open>What \<^verbatim>\<open>gatherDependencies\<close> returns.\<close>

record 'f parse_result =
  pr_deps :: "(string \<times> 'f option) list"
  pr_variable :: bool

text \<open>A rejected promise or thrown exception of a filesystem call or of globby.\<close>

datatype error = IOFailure string

text \<open>
  The collaborators. The synchronous resolver yields \<open>None\<close> when it returns without
  having called back. Each filesystem call either fails or yields its value.
  \<^verbatim>\<open>gatherDependencies\<close> either throws (\<open>Inl\<close> carries \<^verbatim>\<open>e.stack\<close>) or returns.
  \<open>builtin\<close> gives the object that the runtime keeps under a member name of
  \<^verbatim>\<open>Object.prototype\<close>: a function, and for \<^verbatim>\<open>__proto__\<close> the prototype itself.
\<close>

record 'f env =
  resolver :: "string \<Rightarrow> string \<Rightarrow> callback_args"
  syncResolver :: "string \<Rightarrow> string \<Rightarrow> callback_args option"
  readFile :: "string \<Rightarrow> error + string"
  lstat :: "string \<Rightarrow> error + stats"
  stat :: "string \<Rightarrow> error + stats"
  realpath :: "string \<Rightarrow> error + string"
  globby :: "string list \<Rightarrow> string \<Rightarrow> error + string list"
  join :: "string \<Rightarrow> string \<Rightarrow> string"
  dirname :: "string \<Rightarrow> string"
  gatherDependencies :: "string option \<Rightarrow> bool \<Rightarrow> string + 'f parse_result"
  isNodeModule :: "string \<Rightarrow> bool"
  ensureDottedRelative :: "string \<Rightarrow> string \<Rightarrow> string"
  nodeModuleGlobs :: "manifest \<Rightarrow> string list"
  extraGlobs :: "'f File \<Rightarrow> string list"
  builtin :: "string \<Rightarrow> 'f"

subsection \<open>resolveSync and resolve\<close>

definition initial_result :: resolved where
  "initial_result = \<lparr>res_absPath = [], res_pkgPath = Some [], res_pkg = None,
     res_warning = []\<rparr>"

text \<open>The callback both functions pass to the resolver, applied to \<open>result\<close>.\<close>

fun callback :: "resolved \<Rightarrow> callback_args \<Rightarrow> resolved" where
  "callback result (Err message) = result\<lparr>res_warning := message\<rparr>"
| "callback result (Found path descriptionFilePath descriptionFileData) =
     result\<lparr>res_absPath := path, res_pkgPath := descriptionFilePath,
       res_pkg := descriptionFileData\<rparr>"


definition resolve :: "'f env \<Rightarrow> string \<Rightarrow> string \<Rightarrow> resolved" where
  "resolve env from request = callback initial_result (resolver env from request)"

subsection \<open>expand\<close>

text \<open>\<^verbatim>\<open>file.deps[k] || null\<close>: an absent key and a \<^verbatim>\<open>null\<close> value both give \<^verbatim>\<open>null\<close>.\<close>

definition or_null :: "'f option option \<Rightarrow> 'f option" where
  "or_null v = (case v of None \<Rightarrow> None | Some x \<Rightarrow> x)"

text \<open>
  \<^verbatim>\<open>file.deps\<close> is a plain object, so a name that is not one of its own keys is looked up
  in \<^verbatim>\<open>Object.prototype\<close>. These are the data properties found there; each holds a
  function.
\<close>

definition prototype_functions :: "string list" where
  "prototype_functions = [''constructor'', ''__defineGetter__'', ''__defineSetter__'',
     ''hasOwnProperty'', ''__lookupGetter__'', ''__lookupSetter__'', ''isPrototypeOf'',
     ''propertyIsEnumerable'', ''toString'', ''valueOf'', ''toLocaleString'']"

text \<open>\<^verbatim>\<open>file.deps[k]\<close>: the own property, else the inherited member (a function, or what the
  accessor \<^verbatim>\<open>__proto__\<close> gives), else \<^verbatim>\<open>undefined\<close> (\<open>None\<close>).\<close>

definition get_dep :: "'f env \<Rightarrow> (string \<times> 'f option) list \<Rightarrow> string \<Rightarrow> 'f option option"
  where
  "get_dep env ds k =
     (case map_of ds k of
        Some v \<Rightarrow> Some v
      | None \<Rightarrow>
          if k \<in> set prototype_functions \<or> k = ''__proto__'' then Some (Some (builtin env k))
          else None)"

text \<open>
  \<^verbatim>\<open>file.deps[k] = file.deps[k] || null\<close>. Under the name \<^verbatim>\<open>__proto__\<close> a plain object
  inherits an accessor: where it is no own key, the read gives the prototype, an object,
  and the write of that object goes to the setter, which sets the prototype the object
  already has. No key is created. Any other name becomes an own key, with the value read
  or \<^verbatim>\<open>null\<close>.
\<close>

definition keep_or_null :: "'f env \<Rightarrow> string \<Rightarrow> 'f File \<Rightarrow> 'f File" where
  "keep_or_null env k file =
     (if k = ''__proto__'' \<and> map_of (deps file) k = None then file
      else file\<lparr>deps := AList.update k (or_null (get_dep env (deps file) k)) (deps file)\<rparr>)"

text \<open>Lines 85 to 90: the matches of globby, mapped, filtered and inserted.\<close>

definition relDeps :: "'f env \<Rightarrow> 'f File \<Rightarrow> string \<Rightarrow> string \<Rightarrow> string list \<Rightarrow> string list"
  where
  "relDeps env file fileDir baseDir matches =
     filter (\<lambda>relDep. absPath file \<noteq> join env baseDir relDep)
       (map (\<lambda>dep. ensureDottedRelative env fileDir (join env baseDir dep)) matches)"

definition add_matches :: "'f env \<Rightarrow> 'f File \<Rightarrow> string \<Rightarrow> string \<Rightarrow> string list \<Rightarrow> 'f File"
  where
  "add_matches env file fileDir baseDir matches =
     fold (keep_or_null env) (relDeps env file fileDir baseDir matches) file"

text \<open>Lines 91 to 98: the declared dependencies of the manifest, against the keys
  present after the matches were inserted (\<open>currentDeps\<close> is read once).\<close>

definition covered :: "string list \<Rightarrow> string \<Rightarrow> bool" where
  "covered currentDeps dependency =
     list_ex (\<lambda>curDep. startsWith curDep dependency) currentDeps"

definition declared :: "'f File \<Rightarrow> string list" where
  "declared file =
     (case package file of
        None \<Rightarrow> []
      | Some pkg \<Rightarrow> (case dependencies pkg of None \<Rightarrow> [] | Some ds \<Rightarrow> map fst ds))"

definition reconcile :: "'f env \<Rightarrow> 'f File \<Rightarrow> 'f File" where
  "reconcile env file =
     (let currentDeps = map fst (deps file)
      in fold (\<lambda>dependency f.
                 if \<not> covered currentDeps dependency then keep_or_null env dependency f else f)
           (declared file) file)"

definition expand ::
  "'f env \<Rightarrow> 'f File \<Rightarrow> string \<Rightarrow> string \<Rightarrow> string list \<Rightarrow> error + 'f File" where
  "expand env file fileDir baseDir globs =
     (case globby env globs baseDir of
        Inl e \<Rightarrow> Inl e
      | Inr matches \<Rightarrow> Inr (reconcile env (add_matches env file fileDir baseDir matches)))"

subsection \<open>load\<close>

text \<open>
  \<^verbatim>\<open>load\<close> returns a File or \<^verbatim>\<open>{ warning }\<close>, or its promise is rejected (\<open>Inl\<close>). Beside
  the result the model keeps the trace of the calls \<^verbatim>\<open>load\<close> awaits that read file
  contents or expand: \<^verbatim>\<open>readFile\<close>, and \<^verbatim>\<open>expand\<close> with the place it is called from
  (line 138, 142 or 145).
\<close>

datatype 'f load_result = Warning string | Loaded "'f File"

datatype site = Allowlist | Extra | Inherited

datatype event = ReadFile string | Expand site string string "string list"

type_synonym 'a io = "event list \<times> (error + 'a)"

definition io_return :: "'a \<Rightarrow> 'a io" where
  "io_return a = ([], Inr a)"

definition io_bind :: "'a io \<Rightarrow> ('a \<Rightarrow> 'b io) \<Rightarrow> 'b io" where
  "io_bind m k =
     (case m of
        (es, Inl e) \<Rightarrow> (es, Inl e)
      | (es, Inr a) \<Rightarrow> (case k a of (es', r) \<Rightarrow> (es @ es', r)))"

definition await :: "event \<Rightarrow> error + 'a \<Rightarrow> 'a io" where
  "await ev r = ([ev], r)"

text \<open>Modelled from the spec: \<^verbatim>\<open>createFile\<close> of \<^verbatim>\<open>./file\<close>, which is not part of the sources
  at hand. Section 3 and step 2 of section 4.4: a fresh File anchored at the resolved
  path, with no dependency (\<^verbatim>\<open>deps\<close> is an empty plain object), every optional member
  absent and the flags unset.\<close>

definition createFile :: "string \<Rightarrow> 'f File" where
  "createFile p = \<lparr>absPath = p, realPath = None, size = None, realSize = None,
     contents = None, deps = [], variableImports = False, package = None,
     moduleRoot = None, contextExpanded = False\<rparr>"

text \<open>\<^verbatim>\<open>Object.assign(target, source)\<close> on dependency objects.\<close>

definition assign :: "(string \<times> 'f option) list \<Rightarrow> (string \<times> 'f option) list \<Rightarrow>
    (string \<times> 'f option) list" where
  "assign target source = fold (\<lambda>(k, v). AList.update k v) source target"

definition isJs_of :: "string \<Rightarrow> options \<Rightarrow> bool" where
  "isJs_of p opts = (endsWith p ''.js'' \<or> endsWith p ''.mjs'' \<or> isEntry opts)"

text \<open>Lines 115 to 117.\<close>

definition read_contents :: "'f env \<Rightarrow> bool \<Rightarrow> 'f File \<Rightarrow> 'f File io" where
  "read_contents env isJs file =
     (if isJs \<or> endsWith (absPath file) ''json''
      then io_bind (await (ReadFile (absPath file)) (readFile env (absPath file)))
             (\<lambda>text. io_return (file\<lparr>contents := Some text\<rparr>))
      else io_return file)"

text \<open>Lines 119 to 127; \<open>Inl\<close> is the warning of the \<^verbatim>\<open>catch\<close> block.\<close>

definition parse_error :: "string \<Rightarrow> string \<Rightarrow> string" where
  "parse_error p stack = ''Error parsing file: \"'' @ p @ ''\"'' @ [CHR 0x0A] @ stack"

definition gather :: "'f env \<Rightarrow> bool \<Rightarrow> 'f File \<Rightarrow> string + 'f File" where
  "gather env isJs file =
     (if isJs
      then (case gatherDependencies env (contents file) (endsWith (absPath file) ''.mjs'') of
              Inl stack \<Rightarrow> Inl (parse_error (absPath file) stack)
            | Inr parseResult \<Rightarrow>
                Inr (file\<lparr>deps := assign (deps file) (pr_deps parseResult),
                       variableImports := pr_variable parseResult\<rparr>))
      else Inr file)"

text \<open>Line 130, and \<open>expandAll\<close> of line 136.\<close>

definition expandVariable :: "options \<Rightarrow> 'f File \<Rightarrow> bool" where
  "expandVariable opts file = (expand_opt opts = ExpandVariable \<and> variableImports file)"

definition expandAll :: "options \<Rightarrow> bool" where
  "expandAll opts = (expand_opt opts = ExpandAll)"

definition call_expand ::
  "'f env \<Rightarrow> site \<Rightarrow> 'f File \<Rightarrow> string \<Rightarrow> string \<Rightarrow> string list \<Rightarrow> 'f File io" where
  "call_expand env s file fileDir baseDir globs =
     await (Expand s fileDir baseDir globs) (expand env file fileDir baseDir globs)"

text \<open>Lines 133 to 143, the branch of a package.\<close>

definition package_branch ::
  "'f env \<Rightarrow> options \<Rightarrow> manifest \<Rightarrow> string \<Rightarrow> 'f File \<Rightarrow> 'f File io" where
  "package_branch env opts pkg pkgPath file0 =
     (let fileDir = dirname env (absPath file0);
          file1 = file0\<lparr>package := Some pkg\<rparr>;
          file2 = file1\<lparr>deps :=
            AList.update (ensureDottedRelative env fileDir pkgPath) None (deps file1)\<rparr>;
          pkgDir = dirname env pkgPath;
          file3 = file2\<lparr>moduleRoot := Some pkgDir\<rparr>
      in io_bind
           (if expandVariable opts file0 \<or> expandAll opts
            then io_bind (call_expand env Allowlist file3 fileDir pkgDir (nodeModuleGlobs env pkg))
                   (\<lambda>f. io_return (f\<lparr>contextExpanded := True\<rparr>))
            else io_return file3)
           (\<lambda>file4.
              if extraGlobs env file4 \<noteq> []
              then call_expand env Extra file4 fileDir pkgDir (extraGlobs env file4)
              else io_return file4))"

text \<open>Lines 144 to 152, the branch of an inherited context.\<close>

definition context_branch :: "'f env \<Rightarrow> options \<Rightarrow> 'f File \<Rightarrow> 'f File io" where
  "context_branch env opts file =
     (case context_opt opts of
        None \<Rightarrow> io_return file
      | Some ctx \<Rightarrow>
          if expandVariable opts file \<and> truthy (ctx_moduleRoot ctx) \<and> \<not> ctx_expanded ctx
          then io_bind
                 (call_expand env Inherited file (dirname env (absPath file)) (ctx_moduleRoot ctx)
                    (nodeModuleGlobs env \<lparr>dependencies = None, files = ctx_globs ctx, other = []\<rparr>))
                 (\<lambda>f. io_return (f\<lparr>contextExpanded := True\<rparr>))
          else io_return file)"

text \<open>Lines 132 to 152: \<^verbatim>\<open>isNodeModule(request) && pkg && pkgPath\<close> chooses the branch.\<close>

definition expansions ::
  "'f env \<Rightarrow> string \<Rightarrow> resolved \<Rightarrow> options \<Rightarrow> 'f File \<Rightarrow> 'f File io" where
  "expansions env request r opts file =
     (case (res_pkg r, res_pkgPath r) of
        (Some pkg, Some pkgPath) \<Rightarrow>
          if isNodeModule env request \<and> truthy pkgPath
          then package_branch env opts pkg pkgPath file
          else context_branch env opts file
      | _ \<Rightarrow> context_branch env opts file)"

text \<open>Lines 154 to 164. The two promises of \<^verbatim>\<open>Promise.all\<close> are read in their order.\<close>

definition stat_file :: "'f env \<Rightarrow> options \<Rightarrow> 'f File \<Rightarrow> error + 'f File" where
  "stat_file env opts file0 =
     (let file = (if \<not> loadContent opts then file0\<lparr>contents := None\<rparr> else file0)
      in case lstat env (absPath file) of
           Inl e \<Rightarrow> Inl e
         | Inr st \<Rightarrow>
             (if isSymbolicLink st
              then (case realpath env (absPath file) of
                      Inl e \<Rightarrow> Inl e
                    | Inr path \<Rightarrow>
                        (case stat env (absPath file) of
                           Inl e \<Rightarrow> Inl e
                         | Inr absStat \<Rightarrow>
                             Inr (file\<lparr>realPath := Some path,
                                    realSize := Some (st_size absStat),
                                    size := Some (st_size st)\<rparr>)))
              else Inr (file\<lparr>size := Some (st_size st)\<rparr>)))"

definition load :: "'f env \<Rightarrow> string \<Rightarrow> string \<Rightarrow> options \<Rightarrow> 'f load_result io" where
  "load env workingDirectory request opts =
     (let r = resolve env workingDirectory request
      in if \<not> truthy (res_absPath r) then io_return (Warning (res_warning r))
         else
           (let isJs = isJs_of (res_absPath r) opts;
                file = (createFile (res_absPath r))\<lparr>absPath := res_absPath r\<rparr>
            in io_bind (read_contents env isJs file)
                 (\<lambda>file.
                    case gather env isJs file of
                      Inl warning \<Rightarrow> io_return (Warning warning)
                    | Inr file \<Rightarrow>
                        io_bind (expansions env request r opts file)
                          (\<lambda>file. ([], map_sum id Loaded (stat_file env opts file))))))"

subsection \<open>Reading a trace and the conditions of load\<close>

text \<open>The calls of \<^verbatim>\<open>expand\<close> that are followed by \<^verbatim>\<open>file.contextExpanded = true\<close>
  (lines 139 and 151), and the calls of \<^verbatim>\<open>expand\<close> altogether.\<close>

definition sets_flag :: "event \<Rightarrow> bool" where
  "sets_flag ev = (case ev of Expand s _ _ _ \<Rightarrow> s \<noteq> Extra | _ \<Rightarrow> False)"

definition is_expand :: "event \<Rightarrow> bool" where
  "is_expand ev = (case ev of Expand _ _ _ _ \<Rightarrow> True | _ \<Rightarrow> False)"

text \<open>Whether \<^verbatim>\<open>expand\<close> was called from the given place.\<close>

definition expanded_at :: "site \<Rightarrow> event list \<Rightarrow> bool" where
  "expanded_at s es = list_ex (\<lambda>ev. case ev of Expand s' _ _ _ \<Rightarrow> s' = s | _ \<Rightarrow> False) es"

text \<open>The File a load returned, if it returned one.\<close>

definition loaded :: "'f load_result io \<Rightarrow> 'f File option" where
  "loaded out = (case snd out of Inr (Loaded f) \<Rightarrow> Some f | _ \<Rightarrow> None)"

text \<open>The condition of line 132, and the part of the condition of line 144 that reads the
  inherited context.\<close>

definition package_applies :: "'f env \<Rightarrow> string \<Rightarrow> resolved \<Rightarrow> bool" where
  "package_applies env request r =
     (isNodeModule env request \<and> res_pkg r \<noteq> None \<and>
      (case res_pkgPath r of None \<Rightarrow> False | Some pkgPath \<Rightarrow> truthy pkgPath))"

definition inherited :: "options \<Rightarrow> bool" where
  "inherited opts =
     (case context_opt opts of
        None \<Rightarrow> False
      | Some ctx \<Rightarrow> truthy (ctx_moduleRoot ctx) \<and> \<not> ctx_expanded ctx)"

section \<open>A sample installation\<close>

text \<open>
  A concrete environment on which the functions above are evaluated: POSIX paths, and
  a directory \<^verbatim>\<open>/app\<close> with an installed package \<^verbatim>\<open>pkg\<close> whose main file is
  \<^verbatim>\<open>lib/index.js\<close>.
\<close>

subsection \<open>Paths\<close>

text \<open>The non-empty segments of a path between slashes.\<close>

fun segments_acc :: "string \<Rightarrow> string \<Rightarrow> string list" where
  "segments_acc acc [] = (if acc = [] then [] else [rev acc])"
| "segments_acc acc (c # cs) =
     (if c = CHR ''/''
      then (if acc = [] then segments_acc [] cs else rev acc # segments_acc [] cs)
      else segments_acc (c # acc) cs)"

definition segments :: "string \<Rightarrow> string list" where
  "segments p = segments_acc [] p"

text \<open>Segments \<^verbatim>\<open>.\<close> are dropped and \<^verbatim>\<open>..\<close> climbs, staying at the root.\<close>

fun normalize :: "string list \<Rightarrow> string list \<Rightarrow> string list" where
  "normalize up [] = rev up"
| "normalize up (s # ss) =
     (if s = ''.'' then normalize up ss
      else if s = ''..'' then normalize (tl up) ss
      else normalize (s # up) ss)"

definition absolute :: "string list \<Rightarrow> string" where
  "absolute segs = (if segs = [] then ''/'' else concat (map (\<lambda>s. ''/'' @ s) segs))"

text \<open>\<^verbatim>\<open>path.join(a, b)\<close> and \<^verbatim>\<open>path.dirname(p)\<close> of POSIX, for an absolute \<open>a\<close> and \<open>p\<close>.\<close>

definition posix_join :: "string \<Rightarrow> string \<Rightarrow> string" where
  "posix_join a b = absolute (normalize [] (segments a @ segments b))"

definition posix_dirname :: "string \<Rightarrow> string" where
  "posix_dirname p = absolute (butlast (segments p))"

fun strip_common :: "string list \<Rightarrow> string list \<Rightarrow> string list \<times> string list" where
  "strip_common (a # as) (b # bs) =
     (if a = b then strip_common as bs else (a # as, b # bs))"
| "strip_common as bs = (as, bs)"

fun intercalate :: "string \<Rightarrow> string list \<Rightarrow> string" where
  "intercalate sep [] = []"
| "intercalate sep [s] = s"
| "intercalate sep (s # ss) = s @ sep @ intercalate sep ss"

text \<open>\<^verbatim>\<open>path.relative(a, b)\<close> of POSIX, for absolute normalized paths.\<close>

definition posix_relative :: "string \<Rightarrow> string \<Rightarrow> string" where
  "posix_relative a b =
     (case strip_common (segments a) (segments b) of
        (as, bs) \<Rightarrow> intercalate ''/'' (map (\<lambda>_. ''..'') as @ bs))"

text \<open>Modelled from the spec: \<^verbatim>\<open>ensureDottedRelative\<close> of \<^verbatim>\<open>./file\<close>, which is not part of
  the sources at hand. Step 2 of section 4.3: the path relative to the first argument,
  always prefixed with \<^verbatim>\<open>./\<close>.\<close>

definition dotted_relative :: "string \<Rightarrow> string \<Rightarrow> string" where
  "dotted_relative a b =
     (let rel = posix_relative a b in if startsWith rel ''./'' then rel else ''./'' @ rel)"

text \<open>Modelled from the spec: \<^verbatim>\<open>isNodeModule\<close> of \<^verbatim>\<open>./file\<close>. Glossary: a bare specifier
  does not start with a relative-path marker.\<close>

definition bare_specifier :: "string \<Rightarrow> bool" where
  "bare_specifier request = (\<not> startsWith request ''.'' \<and> \<not> startsWith request ''/'')"

text \<open>Modelled from the spec: \<^verbatim>\<open>nodeModuleGlobs\<close> and \<^verbatim>\<open>extraGlobs\<close> of \<^verbatim>\<open>./file\<close>. Step 6
  of section 4.4: the declared file allowlist, or a permissive default; and the
  additional asset patterns the package declares.\<close>

definition allowlist_globs :: "manifest \<Rightarrow> string list" where
  "allowlist_globs pkg = (case files pkg of None \<Rightarrow> [''**/*''] | Some fs \<Rightarrow> fs)"

definition asset_globs :: "'f File \<Rightarrow> string list" where
  "asset_globs file =
     (case package file of
        None \<Rightarrow> []
      | Some pkg \<Rightarrow> (case map_of (other pkg) ''assets'' of None \<Rightarrow> [] | Some gs \<Rightarrow> gs))"

subsection \<open>Files\<close>

definition pkg_manifest :: manifest where
  "pkg_manifest = \<lparr>dependencies = Some [(''left-pad'', ''^1.3.0''), (''lodash'', ''^4.17.0'')],
     files = Some [''lib/**''], other = [(''assets'', [''assets/**''])]\<rparr>"

text \<open>A package whose manifest declares dependencies named like members of
  \<^verbatim>\<open>Object.prototype\<close>.\<close>

definition odd_manifest :: manifest where
  "odd_manifest = \<lparr>dependencies = Some [(''left-pad'', ''^1.3.0''), (''constructor'', ''^1.0.0''),
       (''__proto__'', ''^1.0.0'')],
     files = None, other = []\<rparr>"

definition app_manifest :: manifest where
  "app_manifest = \<lparr>dependencies = Some [(''pkg'', ''^1.0.0'')], files = None, other = []\<rparr>"

definition sample_resolver :: "string \<Rightarrow> string \<Rightarrow> callback_args" where
  "sample_resolver from request =
     (if from = ''/app'' \<and> request = ''pkg''
      then Found ''/app/node_modules/pkg/lib/index.js''
             (Some ''/app/node_modules/pkg/package.json'') (Some pkg_manifest)
      else if from = ''/app'' \<and> request = ''odd''
      then Found ''/app/node_modules/odd/index.js''
             (Some ''/app/node_modules/odd/package.json'') (Some odd_manifest)
      else if from = ''/app'' \<and> request \<in> set [''./broken.js'', ''./datajson'', ''./link.js'',
                ''./logo.png'']
      then Found (posix_join from request) (Some ''/app/package.json'') (Some app_manifest)
      else Err (''Cannot resolve '' @ request @ '' in '' @ from))"

definition sample_readFile :: "string \<Rightarrow> error + string" where
  "sample_readFile p =
     (if p = ''/app/node_modules/pkg/lib/index.js'' then Inr ''require(`lodash/fp`)''
      else if p = ''/app/node_modules/odd/index.js'' then Inr ''module.exports = 1''
      else if p = ''/app/broken.js'' then Inr ''require(''
      else if p = ''/app/datajson'' then Inr ''{}''
      else if p = ''/app/link.js'' then Inr ''require(name)''
      else Inl (IOFailure ''ENOENT''))"

definition sample_gather :: "string option \<Rightarrow> bool \<Rightarrow> string + string parse_result" where
  "sample_gather code isModule =
     (if code = Some ''require(`lodash/fp`)''
      then Inr \<lparr>pr_deps = [(''lodash/fp'', None)], pr_variable = False\<rparr>
      else if code = Some ''require(name)''
      then Inr \<lparr>pr_deps = [], pr_variable = True\<rparr>
      else if code = Some ''require(''
      then Inl ''SyntaxError [1:8]: Unexpected token''
      else Inr \<lparr>pr_deps = [], pr_variable = False\<rparr>)"

definition sample_lstat :: "string \<Rightarrow> error + stats" where
  "sample_lstat p =
     (if p = ''/app/link.js'' then Inr \<lparr>isSymbolicLink = True, st_size = 14\<rparr>
      else Inr \<lparr>isSymbolicLink = False, st_size = 20\<rparr>)"

definition sample_stat :: "string \<Rightarrow> error + stats" where
  "sample_stat p =
     (if p = ''/app/link.js'' then Inr \<lparr>isSymbolicLink = False, st_size = 13\<rparr>
      else Inr \<lparr>isSymbolicLink = False, st_size = 20\<rparr>)"

definition sample_realpath :: "string \<Rightarrow> error + string" where
  "sample_realpath p = (if p = ''/app/link.js'' then Inr ''/app/src/name.js'' else Inr p)"

definition sample_globby :: "string list \<Rightarrow> string \<Rightarrow> error + string list" where
  "sample_globby globs cwd =
     (if cwd = ''/app/node_modules/pkg'' \<and> globs = [''lib/**'']
      then Inr [''lib/index.js'', ''lib/util.js'']
      else if cwd = ''/app/node_modules/pkg'' \<and> globs = [''assets/**'']
      then Inr [''assets/logo.png'']
      else if cwd = ''/app/node_modules/odd'' \<and> globs = [''**/*'']
      then Inr [''index.js'', ''package.json'']
      else Inr [])"

definition sample_env :: "string env" where
  "sample_env = \<lparr>resolver = sample_resolver,
     syncResolver = (\<lambda>from request. Some (sample_resolver from request)),
     readFile = sample_readFile, lstat = sample_lstat, stat = sample_stat,
     realpath = sample_realpath, globby = sample_globby,
     join = posix_join, dirname = posix_dirname,
     gatherDependencies = sample_gather, isNodeModule = bare_specifier,
     ensureDottedRelative = dotted_relative,
     nodeModuleGlobs = allowlist_globs, extraGlobs = asset_globs,
     builtin = (\<lambda>name. ''Object.prototype.'' @ name)\<rparr>"


text \<open>A File of the package root with one resolved and one pending dependency.\<close>

definition sample_file :: "string File" where
  "sample_file = (createFile ''/app/node_modules/pkg/index.js'')
     \<lparr>deps := [(''lodash/fp'', None),
               (''./lib/util.js'', Some ''/app/node_modules/pkg/lib/util.js'')],
      package := Some pkg_manifest\<rparr>"

section \<open>Properties\<close>

lemmas path_defs = posix_join_def posix_dirname_def posix_relative_def dotted_relative_def
  segments_def absolute_def startsWith_def endsWith_def suffix_to_prefix

lemmas sample_defs = sample_env_def sample_resolver_def sample_readFile_def sample_gather_def
  sample_lstat_def sample_stat_def sample_realpath_def sample_globby_def
  bare_specifier_def allowlist_globs_def asset_globs_def pkg_manifest_def app_manifest_def
  odd_manifest_def

subsection \<open>expand\<close>

lemma or_null_simps [simp]:
  "or_null None = None" "or_null (Some x) = x"
  by (simp_all add: or_null_def)

text \<open>The value stored under a name that is no own key: the inherited function, or
  \<^verbatim>\<open>null\<close>.\<close>

lemma or_null_get_dep:
  "or_null (get_dep env ds k) =
     (case map_of ds k of
        Some v \<Rightarrow> v
      | None \<Rightarrow>
          if k \<in> set prototype_functions \<or> k = ''__proto__'' then Some (builtin env k)
          else None)"
  by (simp add: get_dep_def split: option.splits)

lemma keep_or_null_fields [simp]:
  "absPath (keep_or_null env k f) = absPath f"
  "package (keep_or_null env k f) = package f"
  "contextExpanded (keep_or_null env k f) = contextExpanded f"
  "variableImports (keep_or_null env k f) = variableImports f"
  "realPath (keep_or_null env k f) = realPath f"
  "realSize (keep_or_null env k f) = realSize f"
  "contents (keep_or_null env k f) = contents f"
  by (simp_all add: keep_or_null_def)

lemma map_of_keep_or_null:
  "map_of (deps (keep_or_null env k f)) k' =
     (if k' = k \<and> map_of (deps f) k = None \<and> k \<noteq> ''__proto__''
      then Some (if k \<in> set prototype_functions then Some (builtin env k) else None)
      else map_of (deps f) k')"
proof (cases "map_of (deps f) k")
  case None
  then show ?thesis
    by (simp add: keep_or_null_def update_conv' or_null_get_dep)
next
  case (Some v)
  then show ?thesis
    by (auto simp: keep_or_null_def update_conv' or_null_get_dep)
qed

lemma keys_keep_or_null:
  "fst ` set (deps (keep_or_null env k f)) =
     (if k = ''__proto__'' \<and> map_of (deps f) k = None then fst ` set (deps f)
      else insert k (fst ` set (deps f)))"
  by (auto simp: keep_or_null_def dom_update map_of_eq_None_iff)

lemma keep_or_null_present:
  assumes "k \<in> fst ` set (deps f)"
  shows "keep_or_null env k f = f"
proof -
  from assms obtain v where v: "map_of (deps f) k = Some v"
    by (metis domD dom_map_of_conv_image_fst)
  then have "AList.update k (or_null (get_dep env (deps f) k)) (deps f) = deps f"
    by (simp add: update_triv or_null_get_dep)
  with v show ?thesis by (simp add: keep_or_null_def)
qed

lemma keep_or_null_proto:
  assumes "k = ''__proto__''"
  shows "keep_or_null env k f = f"
proof (cases "map_of (deps f) k")
  case None
  with assms show ?thesis by (simp add: keep_or_null_def)
next
  case (Some v)
  then have "k \<in> fst ` set (deps f)"
    by (metis domI dom_map_of_conv_image_fst)
  then show ?thesis by (rule keep_or_null_present)
qed

lemma keep_or_null_resolved:
  "map_of (deps f) k = Some (Some v) \<Longrightarrow>
   map_of (deps (keep_or_null env k' f)) k = Some (Some v)"
  by (auto simp: map_of_keep_or_null)

text \<open>A conditional insertion of a list of keys, as both loops of expand are.\<close>

lemma fold_keep_fields:
  "absPath (fold (\<lambda>k f. if P k then keep_or_null env k f else f) ks f) = absPath f \<and>
   package (fold (\<lambda>k f. if P k then keep_or_null env k f else f) ks f) = package f \<and>
   contextExpanded (fold (\<lambda>k f. if P k then keep_or_null env k f else f) ks f) =
     contextExpanded f \<and>
   variableImports (fold (\<lambda>k f. if P k then keep_or_null env k f else f) ks f) =
     variableImports f \<and>
   realPath (fold (\<lambda>k f. if P k then keep_or_null env k f else f) ks f) = realPath f \<and>
   realSize (fold (\<lambda>k f. if P k then keep_or_null env k f else f) ks f) = realSize f \<and>
   contents (fold (\<lambda>k f. if P k then keep_or_null env k f else f) ks f) = contents f"
  by (induction ks arbitrary: f) simp_all

lemma fold_keep_lookup:
  "map_of (deps (fold (\<lambda>k f. if P k then keep_or_null env k f else f) ks f)) k' =
     (if k' \<in> set ks \<and> P k' \<and> map_of (deps f) k' = None \<and> k' \<noteq> ''__proto__''
      then Some (if k' \<in> set prototype_functions then Some (builtin env k') else None)
      else map_of (deps f) k')"
proof (induction ks arbitrary: f)
  case Nil
  show ?case by simp
next
  case (Cons k ks)
  show ?case
  proof (cases "P k")
    case False
    then show ?thesis using Cons [of f] by auto
  next
    case True
    then show ?thesis
      using Cons [of "keep_or_null env k f"]
      by (auto simp: map_of_keep_or_null)
  qed
qed

lemma fold_keep_keys:
  "fst ` set (deps (fold (\<lambda>k f. if P k then keep_or_null env k f else f) ks f)) =
     fst ` set (deps f) \<union> {k \<in> set ks. P k \<and> k \<noteq> ''__proto__''}"
proof (induction ks arbitrary: f)
  case Nil
  show ?case by simp
next
  case (Cons k ks)
  have own: "''__proto__'' \<in> fst ` set (deps f)" if "map_of (deps f) ''__proto__'' \<noteq> None"
    using that by (metis domIff dom_map_of_conv_image_fst)
  show ?case
  proof (cases "P k")
    case False
    then show ?thesis using Cons [of f] by auto
  next
    case True
    then show ?thesis
      using Cons [of "keep_or_null env k f"] own
      by (auto simp: keys_keep_or_null split: if_splits)
  qed
qed

lemma fold_keep_fixed:
  "(\<And>k. k \<in> set ks \<Longrightarrow> P k \<Longrightarrow> k \<in> fst ` set (deps f) \<or> k = ''__proto__'') \<Longrightarrow>
   fold (\<lambda>k f. if P k then keep_or_null env k f else f) ks f = f"
proof (induction ks)
  case Nil
  show ?case by simp
next
  case (Cons k ks)
  have "(if P k then keep_or_null env k f else f) = f"
  proof (cases "P k")
    case True
    with Cons.prems [of k] have "k \<in> fst ` set (deps f) \<or> k = ''__proto__''" by simp
    then have "keep_or_null env k f = f"
      using keep_or_null_present keep_or_null_proto by blast
    with True show ?thesis by simp
  next
    case False
    then show ?thesis by simp
  qed
  moreover have "fold (\<lambda>k f. if P k then keep_or_null env k f else f) ks f = f"
    using Cons.IH Cons.prems by simp
  ultimately show ?case by simp
qed

lemma fold_all_eq:
  "fold (\<lambda>k f. if True then keep_or_null env k f else f) ks f = fold (keep_or_null env) ks f"
  by simp

lemma fold_all_fields:
  "absPath (fold (keep_or_null env) ks f) = absPath f \<and>
   package (fold (keep_or_null env) ks f) = package f \<and>
   contextExpanded (fold (keep_or_null env) ks f) = contextExpanded f \<and>
   variableImports (fold (keep_or_null env) ks f) = variableImports f \<and>
   realPath (fold (keep_or_null env) ks f) = realPath f \<and>
   realSize (fold (keep_or_null env) ks f) = realSize f \<and>
   contents (fold (keep_or_null env) ks f) = contents f"
  using fold_keep_fields [where P = "\<lambda>_. True" and ks = ks and f = f and env = env]
  by (simp add: fold_all_eq)

lemma fold_all_lookup:
  "map_of (deps (fold (keep_or_null env) ks f)) k' =
     (if k' \<in> set ks \<and> map_of (deps f) k' = None \<and> k' \<noteq> ''__proto__''
      then Some (if k' \<in> set prototype_functions then Some (builtin env k') else None)
      else map_of (deps f) k')"
  using fold_keep_lookup [where P = "\<lambda>_. True" and ks = ks and f = f and k' = k' and env = env]
  by (simp add: fold_all_eq)

lemma fold_all_keys:
  "fst ` set (deps (fold (keep_or_null env) ks f)) =
     fst ` set (deps f) \<union> {k \<in> set ks. k \<noteq> ''__proto__''}"
  using fold_keep_keys [where P = "\<lambda>_. True" and ks = ks and f = f and env = env]
  by (simp add: fold_all_eq)

lemma fold_all_fixed:
  "(\<And>k. k \<in> set ks \<Longrightarrow> k \<in> fst ` set (deps f) \<or> k = ''__proto__'') \<Longrightarrow>
   fold (keep_or_null env) ks f = f"
  using fold_keep_fixed [where P = "\<lambda>_. True" and ks = ks and f = f and env = env]
  by (simp add: fold_all_eq)

lemma reconcile_fold:
  "reconcile env file =
     fold (\<lambda>k f. if \<not> covered (map fst (deps file)) k then keep_or_null env k f else f)
       (declared file) file"
  by (simp add: reconcile_def)

lemma covered_self: "k \<in> set currentDeps \<Longrightarrow> covered currentDeps k"
  by (auto simp: covered_def list_ex_iff startsWith_def)

lemma covered_mono:
  "covered (map fst al) k \<Longrightarrow> fst ` set al \<subseteq> fst ` set al' \<Longrightarrow> covered (map fst al') k"
  unfolding covered_def list_ex_iff by force

lemma add_matches_fields:
  "absPath (add_matches env file fileDir baseDir matches) = absPath file"
  "package (add_matches env file fileDir baseDir matches) = package file"
  unfolding add_matches_def by (simp_all only: fold_all_fields)

lemma reconcile_fields:
  "absPath (reconcile env file) = absPath file"
  "package (reconcile env file) = package file"
  unfolding reconcile_fold by (simp_all only: fold_keep_fields)

lemma declared_cong: "package f = package g \<Longrightarrow> declared f = declared g"
  by (simp add: declared_def)

lemma relDeps_cong:
  "absPath f = absPath g \<Longrightarrow> relDeps env f fileDir baseDir ms = relDeps env g fileDir baseDir ms"
  by (simp add: relDeps_def)

lemma reconcile_keys:
  "fst ` set (deps (reconcile env g)) =
     fst ` set (deps g) \<union>
       {k \<in> set (declared g). \<not> covered (map fst (deps g)) k \<and> k \<noteq> ''__proto__''}"
  unfolding reconcile_fold by (simp only: fold_keep_keys)

lemma add_matches_keys:
  "fst ` set (deps (add_matches env f fileDir baseDir ms)) =
     fst ` set (deps f) \<union> {k \<in> set (relDeps env f fileDir baseDir ms). k \<noteq> ''__proto__''}"
  unfolding add_matches_def by (simp only: fold_all_keys)

lemma reconcile_idem: "reconcile env (reconcile env g) = reconcile env g"
proof -
  let ?h = "reconcile env g"
  have "fold (\<lambda>k f. if \<not> covered (map fst (deps ?h)) k then keep_or_null env k f else f)
          (declared ?h) ?h = ?h"
  proof (rule fold_keep_fixed)
    fix k assume k: "k \<in> set (declared ?h)" and n: "\<not> covered (map fst (deps ?h)) k"
    have sub: "fst ` set (deps g) \<subseteq> fst ` set (deps ?h)"
      by (simp only: reconcile_keys) blast
    from n have "\<not> covered (map fst (deps g)) k"
      using covered_mono [OF _ sub] by blast
    moreover from k have "k \<in> set (declared g)"
      by (simp add: declared_cong [OF reconcile_fields(2)])
    ultimately show "k \<in> fst ` set (deps ?h) \<or> k = ''__proto__''"
      by (simp only: reconcile_keys) blast
  qed
  then show ?thesis by (subst reconcile_fold) simp
qed

lemma add_matches_reconcile_fixed:
  "add_matches env (reconcile env (add_matches env f fileDir baseDir ms)) fileDir baseDir ms =
     reconcile env (add_matches env f fileDir baseDir ms)"
proof -
  let ?g = "add_matches env f fileDir baseDir ms"
  have rd: "relDeps env (reconcile env ?g) fileDir baseDir ms =
      relDeps env f fileDir baseDir ms"
    by (rule relDeps_cong) (simp add: reconcile_fields add_matches_fields)
  have "fold (keep_or_null env) (relDeps env f fileDir baseDir ms) (reconcile env ?g) =
      reconcile env ?g"
  proof (rule fold_all_fixed)
    fix k assume "k \<in> set (relDeps env f fileDir baseDir ms)"
    then have "k \<in> fst ` set (deps ?g) \<or> k = ''__proto__''"
      by (simp only: add_matches_keys) blast
    then show "k \<in> fst ` set (deps (reconcile env ?g)) \<or> k = ''__proto__''"
      by (simp only: reconcile_keys) blast
  qed
  then show ?thesis by (simp only: add_matches_def [of env "reconcile env ?g"] rd)
qed

text \<open>
  Where \<open>fileDir\<close> is \<open>baseDir\<close> and joining the directory with the relative form of a
  path gives the path back, the filter of \<^verbatim>\<open>expand\<close> drops exactly the matches that are the
  File itself.
\<close>

lemma relDeps_same_directory:
  assumes "\<And>dep. dep \<in> set matches \<Longrightarrow>
     join env dir (ensureDottedRelative env dir (join env dir dep)) = join env dir dep"
  shows "relDeps env file dir dir matches =
     map (\<lambda>dep. ensureDottedRelative env dir (join env dir dep))
       (filter (\<lambda>dep. absPath file \<noteq> join env dir dep) matches)"
  using assms unfolding relDeps_def by (induction matches) auto

text \<open>
  C4. Expansion is idempotent and the first writer wins: a second run of \<^verbatim>\<open>expand\<close> on the
  File the first run produced, with the same directories and patterns, returns that File
  unchanged (no new key, no changed value), and no run replaces a resolved value by
  \<^verbatim>\<open>null\<close>.
\<close>

theorem expand_idempotent:
  assumes "expand env file fileDir baseDir globs = Inr file'"
  shows "expand env file' fileDir baseDir globs = Inr file' \<and>
         (\<forall>k v. map_of (deps file) k = Some (Some v) \<longrightarrow> map_of (deps file') k = Some (Some v))"
proof -
  from assms obtain ms where ms: "globby env globs baseDir = Inr ms"
    and f': "file' = reconcile env (add_matches env file fileDir baseDir ms)"
    by (auto simp: expand_def split: sum.splits)
  have "expand env file' fileDir baseDir globs = Inr file'"
    by (simp add: expand_def ms f' add_matches_reconcile_fixed reconcile_idem)
  moreover have "map_of (deps file') k = Some (Some v)"
    if "map_of (deps file) k = Some (Some v)" for k v
    using that unfolding f' reconcile_fold add_matches_def
    by (auto simp: fold_keep_lookup fold_all_lookup)
  ultimately show ?thesis by blast
qed

lemma sample_expand:
  "expand sample_env sample_file ''/app/node_modules/pkg'' ''/app/node_modules/pkg'' [''lib/**'']
   = Inr (sample_file\<lparr>deps := [(''lodash/fp'', None),
        (''./lib/util.js'', Some ''/app/node_modules/pkg/lib/util.js''),
        (''./lib/index.js'', None), (''left-pad'', None)]\<rparr>)"
  by code_simp


text \<open>
  What the reconciliation does for a declared name, when globby succeeds. A name that some
  key present after the insertion of the matches starts with keeps the entry it had at
  that point, and so does \<^verbatim>\<open>__proto__\<close>. Any other declared name becomes a key: with the
  function inherited from \<^verbatim>\<open>Object.prototype\<close> when it names one, with \<^verbatim>\<open>null\<close> otherwise.
\<close>

lemma expand_declared:
  assumes "globby env globs baseDir = Inr matches"
    and "package file = Some pkg" and "dependencies pkg = Some ds"
    and "name \<in> fst ` set ds"
  shows "\<exists>file'. expand env file fileDir baseDir globs = Inr file' \<and>
     (let current = add_matches env file fileDir baseDir matches
      in if covered (map fst (deps current)) name \<or> name = ''__proto__''
         then map_of (deps file') name = map_of (deps current) name
         else map_of (deps file') name =
           Some (if name \<in> set prototype_functions then Some (builtin env name) else None))"
proof -
  let ?g = "add_matches env file fileDir baseDir matches"
  have e: "expand env file fileDir baseDir globs = Inr (reconcile env ?g)"
    by (simp add: expand_def assms(1))
  have d: "name \<in> set (declared ?g)"
    using assms(2-4) by (simp add: declared_def add_matches_fields)
  have l: "map_of (deps (reconcile env ?g)) name =
      (if \<not> covered (map fst (deps ?g)) name \<and> map_of (deps ?g) name = None \<and>
          name \<noteq> ''__proto__''
       then Some (if name \<in> set prototype_functions then Some (builtin env name) else None)
       else map_of (deps ?g) name)"
    unfolding reconcile_fold using d by (simp add: fold_keep_lookup)
  have n: "map_of (deps ?g) name = None" if "\<not> covered (map fst (deps ?g)) name"
  proof -
    from that have "name \<notin> set (map fst (deps ?g))"
      using covered_self by blast
    then show ?thesis by (simp add: map_of_eq_None_iff)
  qed
  have "if covered (map fst (deps ?g)) name \<or> name = ''__proto__''
      then map_of (deps (reconcile env ?g)) name = map_of (deps ?g) name
      else map_of (deps (reconcile env ?g)) name =
        Some (if name \<in> set prototype_functions then Some (builtin env name) else None)"
  proof (cases "covered (map fst (deps ?g)) name \<or> name = ''__proto__''")
    case True
    then show ?thesis by (auto simp: l)
  next
    case False
    with n have "map_of (deps ?g) name = None" by blast
    with False show ?thesis by (simp add: l)
  qed
  with e show ?thesis by (simp add: Let_def)
qed

subsection \<open>resolve\<close>





subsection \<open>The stages of load\<close>

lemma io_return_eq [simp]: "io_return a = (es, r) \<longleftrightarrow> es = [] \<and> r = Inr a"
  by (auto simp: io_return_def)

lemma await_eq [simp]: "await ev x = (es, r) \<longleftrightarrow> es = [ev] \<and> x = r"
  by (auto simp: await_def)

lemma io_bind_Inr:
  "io_bind m k = (es, Inr b) \<longleftrightarrow>
     (\<exists>es1 a es2. m = (es1, Inr a) \<and> k a = (es2, Inr b) \<and> es = es1 @ es2)"
  by (cases m) (auto simp: io_bind_def split: sum.splits prod.splits)

lemma only_deps_trans:
  "g = f\<lparr>deps := deps g\<rparr> \<Longrightarrow> h = g\<lparr>deps := deps h\<rparr> \<Longrightarrow> h = f\<lparr>deps := deps h\<rparr>"
proof -
  assume a: "g = f\<lparr>deps := deps g\<rparr>" and b: "h = g\<lparr>deps := deps h\<rparr>"
  have "h = (f\<lparr>deps := deps g\<rparr>)\<lparr>deps := deps h\<rparr>"
    by (subst b, subst a) simp
  then show ?thesis by simp
qed

lemma flag_after_deps:
  assumes "g = f\<lparr>deps := deps g\<rparr>"
  shows "g\<lparr>contextExpanded := True\<rparr> = f\<lparr>deps := deps g, contextExpanded := True\<rparr>"
  by (subst assms) simp

lemma keep_or_null_only_deps:
  "keep_or_null env k f = f\<lparr>deps := deps (keep_or_null env k f)\<rparr>"
  by (simp add: keep_or_null_def)

lemma fold_keep_only_deps:
  "fold (\<lambda>k f. if P k then keep_or_null env k f else f) ks f =
     f\<lparr>deps := deps (fold (\<lambda>k f. if P k then keep_or_null env k f else f) ks f)\<rparr>"
proof (induction ks arbitrary: f)
  case Nil
  show ?case by simp
next
  case (Cons k ks)
  let ?g = "if P k then keep_or_null env k f else f"
  have "?g = f\<lparr>deps := deps ?g\<rparr>"
    using keep_or_null_only_deps [of env k f] by simp
  from only_deps_trans [OF this Cons [of ?g]] show ?case by simp
qed

lemma expand_only_deps:
  assumes "expand env f fileDir baseDir globs = Inr f'"
  shows "f' = f\<lparr>deps := deps f'\<rparr>"
proof -
  from assms obtain ms where f': "f' = reconcile env (add_matches env f fileDir baseDir ms)"
    by (auto simp: expand_def split: sum.splits)
  let ?g = "add_matches env f fileDir baseDir ms"
  have "?g = f\<lparr>deps := deps ?g\<rparr>"
    using fold_keep_only_deps [where P = "\<lambda>_. True" and f = f and env = env]
    by (simp add: add_matches_def)
  moreover have "reconcile env ?g = ?g\<lparr>deps := deps (reconcile env ?g)\<rparr>"
    unfolding reconcile_fold by (rule fold_keep_only_deps)
  ultimately show ?thesis unfolding f' by (rule only_deps_trans)
qed

lemma read_contents_result:
  assumes "read_contents env isJs f0 = (es, Inr f1)"
  shows "if isJs \<or> endsWith (absPath f0) ''json''
         then \<exists>text. readFile env (absPath f0) = Inr text \<and> es = [ReadFile (absPath f0)] \<and>
                f1 = f0\<lparr>contents := Some text\<rparr>
         else es = [] \<and> f1 = f0"
  using assms by (auto simp: read_contents_def io_bind_Inr split: if_splits)

lemma gather_result:
  assumes "gather env isJs f1 = Inr f2"
  shows "if isJs
         then \<exists>pr. gatherDependencies env (contents f1) (endsWith (absPath f1) ''.mjs'') = Inr pr \<and>
                f2 = f1\<lparr>deps := assign (deps f1) (pr_deps pr), variableImports := pr_variable pr\<rparr>
         else f2 = f1"
  using assms by (auto simp: gather_def split: if_splits sum.splits)

lemma package_branch_result:
  assumes "package_branch env opts pkg pkgPath f0 = (es, Inr f')"
  shows "\<exists>extra.
     f' = f0\<lparr>package := Some pkg, moduleRoot := Some (dirname env pkgPath), deps := deps f',
            contextExpanded := (contextExpanded f0 \<or> expandVariable opts f0 \<or> expandAll opts)\<rparr> \<and>
     es = (if expandVariable opts f0 \<or> expandAll opts
           then [Expand Allowlist (dirname env (absPath f0)) (dirname env pkgPath)
                   (nodeModuleGlobs env pkg)]
           else []) @ extra \<and>
     (\<forall>e \<in> set extra. \<exists>fd bd gs. e = Expand Extra fd bd gs)"
proof -
  let ?fileDir = "dirname env (absPath f0)"
  let ?pkgDir = "dirname env pkgPath"
  let ?f3 = "f0\<lparr>package := Some pkg,
      deps := AList.update (ensureDottedRelative env ?fileDir pkgPath) None (deps f0),
      moduleRoot := Some ?pkgDir\<rparr>"
  let ?first = "if expandVariable opts f0 \<or> expandAll opts
      then io_bind (call_expand env Allowlist ?f3 ?fileDir ?pkgDir (nodeModuleGlobs env pkg))
             (\<lambda>f. io_return (f\<lparr>contextExpanded := True\<rparr>))
      else io_return ?f3"
  let ?second = "\<lambda>file4. if extraGlobs env file4 \<noteq> []
      then call_expand env Extra file4 ?fileDir ?pkgDir (extraGlobs env file4)
      else io_return file4"
  have pb: "package_branch env opts pkg pkgPath f0 = io_bind ?first ?second"
    by (simp add: package_branch_def Let_def)
  from assms obtain es1 f4 es2 where one: "?first = (es1, Inr f4)"
    and two: "?second f4 = (es2, Inr f')" and es: "es = es1 @ es2"
    unfolding pb io_bind_Inr by blast
  have f4: "f4 = f0\<lparr>package := Some pkg, moduleRoot := Some ?pkgDir, deps := deps f4,
          contextExpanded := (contextExpanded f0 \<or> expandVariable opts f0 \<or> expandAll opts)\<rparr> \<and>
       es1 = (if expandVariable opts f0 \<or> expandAll opts
           then [Expand Allowlist ?fileDir ?pkgDir (nodeModuleGlobs env pkg)] else [])"
  proof (cases "expandVariable opts f0 \<or> expandAll opts")
    case True
    with one have
      "io_bind (call_expand env Allowlist ?f3 ?fileDir ?pkgDir (nodeModuleGlobs env pkg))
         (\<lambda>f. io_return (f\<lparr>contextExpanded := True\<rparr>)) = (es1, Inr f4)"
      by simp
    then obtain ea g eb where
      "call_expand env Allowlist ?f3 ?fileDir ?pkgDir (nodeModuleGlobs env pkg) = (ea, Inr g)"
      "io_return (g\<lparr>contextExpanded := True\<rparr>) = (eb, Inr f4)" "es1 = ea @ eb"
      unfolding io_bind_Inr by blast
    then have g: "expand env ?f3 ?fileDir ?pkgDir (nodeModuleGlobs env pkg) = Inr g"
      and r: "f4 = g\<lparr>contextExpanded := True\<rparr>"
      and e1: "es1 = [Expand Allowlist ?fileDir ?pkgDir (nodeModuleGlobs env pkg)]"
      by (simp_all add: call_expand_def)
    from flag_after_deps [OF expand_only_deps [OF g]]
    have "g\<lparr>contextExpanded := True\<rparr> =
        f0\<lparr>package := Some pkg, moduleRoot := Some ?pkgDir, deps := deps g,
          contextExpanded := True\<rparr>"
      by simp
    with r True e1 show ?thesis by simp
  next
    case False
    with one have "f4 = ?f3" "es1 = []" by auto
    with False show ?thesis by auto
  qed
  then have d4: "f4 = f0\<lparr>package := Some pkg, moduleRoot := Some ?pkgDir, deps := deps f4,
          contextExpanded := (contextExpanded f0 \<or> expandVariable opts f0 \<or> expandAll opts)\<rparr>"
    and e1: "es1 = (if expandVariable opts f0 \<or> expandAll opts
           then [Expand Allowlist ?fileDir ?pkgDir (nodeModuleGlobs env pkg)] else [])"
    by blast+
  have "f' = f4\<lparr>deps := deps f'\<rparr> \<and> (\<forall>e \<in> set es2. \<exists>fd bd gs. e = Expand Extra fd bd gs)"
  proof (cases "extraGlobs env f4 \<noteq> []")
    case True
    with two have g: "expand env f4 ?fileDir ?pkgDir (extraGlobs env f4) = Inr f'"
      and e2: "es2 = [Expand Extra ?fileDir ?pkgDir (extraGlobs env f4)]"
      by (auto simp: call_expand_def)
    from expand_only_deps [OF g] e2 show ?thesis by auto
  next
    case False
    with two have "f' = f4" "es2 = []" by auto
    then show ?thesis by simp
  qed
  then have y: "f' = f4\<lparr>deps := deps f'\<rparr>"
    and x: "\<forall>e \<in> set es2. \<exists>fd bd gs. e = Expand Extra fd bd gs" by blast+
  have "f' = f0\<lparr>package := Some pkg, moduleRoot := Some ?pkgDir, deps := deps f',
          contextExpanded := (contextExpanded f0 \<or> expandVariable opts f0 \<or> expandAll opts)\<rparr>"
    by (subst y, subst d4) simp
  with e1 es x show ?thesis by blast
qed

lemma context_branch_result:
  assumes "context_branch env opts f0 = (es, Inr f')"
  shows "f' = f0\<lparr>deps := deps f',
            contextExpanded := (contextExpanded f0 \<or> (expandVariable opts f0 \<and> inherited opts))\<rparr> \<and>
     (if expandVariable opts f0 \<and> inherited opts
      then \<exists>bd gs. es = [Expand Inherited (dirname env (absPath f0)) bd gs]
      else es = [])"
proof (cases "expandVariable opts f0 \<and> inherited opts")
  case True
  then obtain ctx where ctx: "context_opt opts = Some ctx" "truthy (ctx_moduleRoot ctx)"
      "\<not> ctx_expanded ctx"
    by (auto simp: inherited_def split: option.splits)
  let ?gs = "nodeModuleGlobs env \<lparr>dependencies = None, files = ctx_globs ctx, other = []\<rparr>"
  from assms True ctx have
    "io_bind (call_expand env Inherited f0 (dirname env (absPath f0)) (ctx_moduleRoot ctx) ?gs)
       (\<lambda>f. io_return (f\<lparr>contextExpanded := True\<rparr>)) = (es, Inr f')"
    by (simp add: context_branch_def)
  then obtain es1 g es2 where
    "call_expand env Inherited f0 (dirname env (absPath f0)) (ctx_moduleRoot ctx) ?gs = (es1, Inr g)"
    "io_return (g\<lparr>contextExpanded := True\<rparr>) = (es2, Inr f')" "es = es1 @ es2"
    unfolding io_bind_Inr by blast
  then have g: "expand env f0 (dirname env (absPath f0)) (ctx_moduleRoot ctx) ?gs = Inr g"
    and r: "f' = g\<lparr>contextExpanded := True\<rparr>"
    and e: "es = [Expand Inherited (dirname env (absPath f0)) (ctx_moduleRoot ctx) ?gs]"
    by (simp_all add: call_expand_def)
  from flag_after_deps [OF expand_only_deps [OF g]]
  have "g\<lparr>contextExpanded := True\<rparr> = f0\<lparr>deps := deps g, contextExpanded := True\<rparr>" .
  with r e True show ?thesis by simp
next
  case False
  with assms have "f' = f0" "es = []"
    by (auto simp: context_branch_def inherited_def split: option.splits if_splits)
  with False show ?thesis by (cases "expandVariable opts f0") simp_all
qed

lemma expansions_cases:
  "expansions env request r opts f =
     (if package_applies env request r
      then package_branch env opts (the (res_pkg r)) (the (res_pkgPath r)) f
      else context_branch env opts f)"
  by (auto simp: expansions_def package_applies_def split: option.splits)

lemma stat_file_result:
  assumes "stat_file env opts f3 = Inr f"
  shows "\<exists>st. lstat env (absPath f3) = Inr st \<and>
     (if isSymbolicLink st
      then \<exists>path absStat. realpath env (absPath f3) = Inr path \<and>
             stat env (absPath f3) = Inr absStat \<and>
             f = f3\<lparr>contents := (if loadContent opts then contents f3 else None),
                    realPath := Some path, realSize := Some (st_size absStat),
                    size := Some (st_size st)\<rparr>
      else f = f3\<lparr>contents := (if loadContent opts then contents f3 else None),
                    size := Some (st_size st)\<rparr>)"
  using assms by (auto simp: stat_file_def Let_def split: sum.splits if_splits)

lemma load_LoadedE:
  assumes "load env wd request opts = (es, Inr (Loaded f))"
  obtains es1 es2 f1 f2 f3 where
    "truthy (res_absPath (resolve env wd request))"
    "read_contents env (isJs_of (res_absPath (resolve env wd request)) opts)
       ((createFile (res_absPath (resolve env wd request)))
          \<lparr>absPath := res_absPath (resolve env wd request)\<rparr>) = (es1, Inr f1)"
    "gather env (isJs_of (res_absPath (resolve env wd request)) opts) f1 = Inr f2"
    "expansions env request (resolve env wd request) opts f2 = (es2, Inr f3)"
    "stat_file env opts f3 = Inr f"
    "es = es1 @ es2"
proof -
  let ?r = "resolve env wd request"
  from assms have t: "truthy (res_absPath ?r)"
    by (auto simp: load_def Let_def split: if_splits)
  let ?isJs = "isJs_of (res_absPath ?r) opts"
  let ?k = "\<lambda>file. case gather env ?isJs file of
                      Inl warning \<Rightarrow> io_return (Warning warning)
                    | Inr file \<Rightarrow>
                        io_bind (expansions env request ?r opts file)
                          (\<lambda>file. ([], map_sum id Loaded (stat_file env opts file)))"
  from assms t have "io_bind (read_contents env ?isJs ((createFile (res_absPath ?r))\<lparr>absPath := res_absPath ?r\<rparr>)) ?k
      = (es, Inr (Loaded f))"
    by (simp add: load_def Let_def)
  then obtain es1 f1 es' where a: "read_contents env ?isJs ((createFile (res_absPath ?r))\<lparr>absPath := res_absPath ?r\<rparr>) = (es1, Inr f1)"
    and b: "?k f1 = (es', Inr (Loaded f))" and c: "es = es1 @ es'"
    unfolding io_bind_Inr by blast
  from b obtain f2 where d: "gather env ?isJs f1 = Inr f2"
    and e: "io_bind (expansions env request ?r opts f2)
              (\<lambda>file. ([], map_sum id Loaded (stat_file env opts file))) = (es', Inr (Loaded f))"
    by (auto split: sum.splits)
  from e obtain es2 f3 where g: "expansions env request ?r opts f2 = (es2, Inr f3)"
    and h: "map_sum id Loaded (stat_file env opts f3) = Inr (Loaded f)" and i: "es' = es2"
    unfolding io_bind_Inr by auto
  from h have "stat_file env opts f3 = Inr f"
    by (cases "stat_file env opts f3") auto
  with t a d g c i that show ?thesis by blast
qed


lemma expanded_at_simps [simp]:
  "expanded_at s [] = False"
  "expanded_at s (Expand s' fd bd gs # es) = (s' = s \<or> expanded_at s es)"
  "expanded_at s (ReadFile p # es) = expanded_at s es"
  "expanded_at s (es @ es') = (expanded_at s es \<or> expanded_at s es')"
  by (auto simp: expanded_at_def)

lemma extra_only:
  assumes "\<forall>e \<in> set extra. \<exists>fd bd gs. e = Expand Extra fd bd gs"
  shows "filter sets_flag extra = []" "\<not> expanded_at Allowlist extra" "\<not> expanded_at Inherited extra"
    "\<forall>e \<in> set extra. is_expand e"
  using assms by (auto simp: sets_flag_def expanded_at_def list_ex_iff is_expand_def filter_empty_conv)

lemma package_branch_trace:
  assumes "package_branch env opts pkg pkgPath f0 = (es, Inr f')"
  shows "length (filter sets_flag es) \<le> 1"
    and "(\<exists>e \<in> set es. sets_flag e) \<longleftrightarrow> expandVariable opts f0 \<or> expandAll opts"
    and "expanded_at Allowlist es \<longleftrightarrow> expandVariable opts f0 \<or> expandAll opts"
    and "\<not> expanded_at Inherited es"
    and "\<forall>e \<in> set es. is_expand e"
proof -
  from package_branch_result [OF assms] obtain extra where
    es: "es = (if expandVariable opts f0 \<or> expandAll opts
           then [Expand Allowlist (dirname env (absPath f0)) (dirname env pkgPath)
                   (nodeModuleGlobs env pkg)]
           else []) @ extra"
    and x: "\<forall>e \<in> set extra. \<exists>fd bd gs. e = Expand Extra fd bd gs"
    by blast
  note ex = extra_only [OF x]
  show "length (filter sets_flag es) \<le> 1"
    by (simp add: es ex(1) sets_flag_def)
  have "\<not> (\<exists>e \<in> set extra. sets_flag e)"
    using ex(1) by (simp add: filter_empty_conv)
  then show "(\<exists>e \<in> set es. sets_flag e) \<longleftrightarrow> expandVariable opts f0 \<or> expandAll opts"
    by (auto simp: es sets_flag_def)
  show "expanded_at Allowlist es \<longleftrightarrow> expandVariable opts f0 \<or> expandAll opts"
    by (simp add: es ex(2))
  show "\<not> expanded_at Inherited es"
    by (simp add: es ex(3))
  show "\<forall>e \<in> set es. is_expand e"
    using ex(4) by (auto simp: es is_expand_def)
qed

lemma context_branch_trace:
  assumes "context_branch env opts f0 = (es, Inr f')"
  shows "length (filter sets_flag es) \<le> 1"
    and "(\<exists>e \<in> set es. sets_flag e) \<longleftrightarrow> expandVariable opts f0 \<and> inherited opts"
    and "expanded_at Inherited es \<longleftrightarrow> expandVariable opts f0 \<and> inherited opts"
    and "\<not> expanded_at Allowlist es"
    and "\<forall>e \<in> set es. is_expand e"
  using context_branch_result [OF assms]
  by (auto simp: sets_flag_def is_expand_def split: if_splits)

lemma package_branch_fields:
  assumes "package_branch env opts pkg pkgPath f0 = (es, Inr f')"
  shows "absPath f' = absPath f0" "contents f' = contents f0" "realPath f' = realPath f0"
    "realSize f' = realSize f0" "variableImports f' = variableImports f0"
    "contextExpanded f' = (contextExpanded f0 \<or> expandVariable opts f0 \<or> expandAll opts)"
proof -
  from package_branch_result [OF assms] obtain extra where
    f': "f' = f0\<lparr>package := Some pkg, moduleRoot := Some (dirname env pkgPath), deps := deps f',
            contextExpanded := (contextExpanded f0 \<or> expandVariable opts f0 \<or> expandAll opts)\<rparr>"
    by blast
  show "absPath f' = absPath f0" by (subst f') simp
  show "contents f' = contents f0" by (subst f') simp
  show "realPath f' = realPath f0" by (subst f') simp
  show "realSize f' = realSize f0" by (subst f') simp
  show "variableImports f' = variableImports f0" by (subst f') simp
  show "contextExpanded f' = (contextExpanded f0 \<or> expandVariable opts f0 \<or> expandAll opts)"
    by (subst f') simp
qed

lemma context_branch_fields:
  assumes "context_branch env opts f0 = (es, Inr f')"
  shows "absPath f' = absPath f0" "contents f' = contents f0" "realPath f' = realPath f0"
    "realSize f' = realSize f0" "variableImports f' = variableImports f0"
    "contextExpanded f' = (contextExpanded f0 \<or> (expandVariable opts f0 \<and> inherited opts))"
proof -
  from context_branch_result [OF assms] have
    f': "f' = f0\<lparr>deps := deps f',
            contextExpanded := (contextExpanded f0 \<or> (expandVariable opts f0 \<and> inherited opts))\<rparr>"
    by blast
  show "absPath f' = absPath f0" by (subst f') simp
  show "contents f' = contents f0" by (subst f') simp
  show "realPath f' = realPath f0" by (subst f') simp
  show "realSize f' = realSize f0" by (subst f') simp
  show "variableImports f' = variableImports f0" by (subst f') simp
  show "contextExpanded f' = (contextExpanded f0 \<or> (expandVariable opts f0 \<and> inherited opts))"
    by (subst f') simp
qed

text \<open>What the expansion step of a load does to the File and to the trace.\<close>

lemma expansions_result:
  assumes "expansions env request r opts f2 = (es, Inr f3)"
  shows "absPath f3 = absPath f2" "contents f3 = contents f2" "realPath f3 = realPath f2"
    "realSize f3 = realSize f2" "variableImports f3 = variableImports f2"
    "contextExpanded f3 = (contextExpanded f2 \<or> (\<exists>e \<in> set es. sets_flag e))"
    "length (filter sets_flag es) \<le> 1"
    "\<forall>e \<in> set es. is_expand e"
    "package_applies env request r \<Longrightarrow>
       (expanded_at Allowlist es \<longleftrightarrow> expandVariable opts f2 \<or> expandAll opts) \<and> \<not> expanded_at Inherited es"
    "\<not> package_applies env request r \<Longrightarrow>
       (expanded_at Inherited es \<longleftrightarrow> expandVariable opts f2 \<and> inherited opts) \<and> \<not> expanded_at Allowlist es"
proof -
  have main: "absPath f3 = absPath f2 \<and> contents f3 = contents f2 \<and> realPath f3 = realPath f2 \<and>
    realSize f3 = realSize f2 \<and> variableImports f3 = variableImports f2 \<and>
    contextExpanded f3 = (contextExpanded f2 \<or> (\<exists>e \<in> set es. sets_flag e)) \<and>
    length (filter sets_flag es) \<le> 1 \<and> (\<forall>e \<in> set es. is_expand e)"
  proof (cases "package_applies env request r")
    case True
    with assms have b: "package_branch env opts (the (res_pkg r)) (the (res_pkgPath r)) f2 =
        (es, Inr f3)"
      by (simp add: expansions_cases)
    show ?thesis
      using package_branch_fields [OF b] package_branch_trace(1,2,5) [OF b] by simp
  next
    case False
    with assms have b: "context_branch env opts f2 = (es, Inr f3)"
      by (simp add: expansions_cases)
    show ?thesis
      using context_branch_fields [OF b] context_branch_trace(1,2,5) [OF b] by simp
  qed
  then show "absPath f3 = absPath f2" "contents f3 = contents f2" "realPath f3 = realPath f2"
    "realSize f3 = realSize f2" "variableImports f3 = variableImports f2"
    "contextExpanded f3 = (contextExpanded f2 \<or> (\<exists>e \<in> set es. sets_flag e))"
    "length (filter sets_flag es) \<le> 1"
    "\<forall>e \<in> set es. is_expand e"
    by blast+
  show "(expanded_at Allowlist es \<longleftrightarrow> expandVariable opts f2 \<or> expandAll opts) \<and> \<not> expanded_at Inherited es"
    if "package_applies env request r"
  proof -
    from assms that have b: "package_branch env opts (the (res_pkg r)) (the (res_pkgPath r)) f2 =
        (es, Inr f3)"
      by (simp add: expansions_cases)
    show ?thesis using package_branch_trace(3,4) [OF b] by simp
  qed
  show "(expanded_at Inherited es \<longleftrightarrow> expandVariable opts f2 \<and> inherited opts) \<and> \<not> expanded_at Allowlist es"
    if "\<not> package_applies env request r"
  proof -
    from assms that have b: "context_branch env opts f2 = (es, Inr f3)"
      by (simp add: expansions_cases)
    show ?thesis using context_branch_trace(3,4) [OF b] by simp
  qed
qed


lemma stat_file_fields:
  assumes "stat_file env opts f3 = Inr f"
  shows "absPath f = absPath f3 \<and> contextExpanded f = contextExpanded f3 \<and>
    variableImports f = variableImports f3 \<and>
    contents f = (if loadContent opts then contents f3 else None)"
proof -
  from stat_file_result [OF assms] obtain st where l: "lstat env (absPath f3) = Inr st"
    and r: "if isSymbolicLink st
      then \<exists>path absStat. realpath env (absPath f3) = Inr path \<and>
             stat env (absPath f3) = Inr absStat \<and>
             f = f3\<lparr>contents := (if loadContent opts then contents f3 else None),
                    realPath := Some path, realSize := Some (st_size absStat),
                    size := Some (st_size st)\<rparr>
      else f = f3\<lparr>contents := (if loadContent opts then contents f3 else None),
                    size := Some (st_size st)\<rparr>"
    by blast
  show ?thesis
  proof (cases "isSymbolicLink st")
    case True
    with r obtain path absStat where "realpath env (absPath f3) = Inr path"
      "stat env (absPath f3) = Inr absStat"
      "f = f3\<lparr>contents := (if loadContent opts then contents f3 else None),
                    realPath := Some path, realSize := Some (st_size absStat),
                    size := Some (st_size st)\<rparr>"
      by auto
    then show ?thesis by simp
  next
    case False
    with r have "f = f3\<lparr>contents := (if loadContent opts then contents f3 else None),
                    size := Some (st_size st)\<rparr>" by simp
    then show ?thesis by simp
  qed
qed

lemma stat_file_links:
  assumes "stat_file env opts f3 = Inr f"
  shows "\<exists>st. lstat env (absPath f3) = Inr st \<and> size f = Some (st_size st) \<and>
     (if isSymbolicLink st
      then \<exists>path absStat. realpath env (absPath f3) = Inr path \<and>
             stat env (absPath f3) = Inr absStat \<and>
             realPath f = Some path \<and> realSize f = Some (st_size absStat)
      else realPath f = realPath f3 \<and> realSize f = realSize f3)"
proof -
  from stat_file_result [OF assms] obtain st where l: "lstat env (absPath f3) = Inr st"
    and r: "if isSymbolicLink st
      then \<exists>path absStat. realpath env (absPath f3) = Inr path \<and>
             stat env (absPath f3) = Inr absStat \<and>
             f = f3\<lparr>contents := (if loadContent opts then contents f3 else None),
                    realPath := Some path, realSize := Some (st_size absStat),
                    size := Some (st_size st)\<rparr>
      else f = f3\<lparr>contents := (if loadContent opts then contents f3 else None),
                    size := Some (st_size st)\<rparr>"
    by blast
  show ?thesis
  proof (cases "isSymbolicLink st")
    case True
    with r obtain path absStat where "realpath env (absPath f3) = Inr path"
      "stat env (absPath f3) = Inr absStat"
      "f = f3\<lparr>contents := (if loadContent opts then contents f3 else None),
                    realPath := Some path, realSize := Some (st_size absStat),
                    size := Some (st_size st)\<rparr>"
      by auto
    with l True show ?thesis by auto
  next
    case False
    with r have "f = f3\<lparr>contents := (if loadContent opts then contents f3 else None),
                    size := Some (st_size st)\<rparr>" by simp
    with l False show ?thesis by auto
  qed
qed


lemma read_contents_fields:
  assumes "read_contents env isJs f0 = (es, Inr f1)"
  shows "absPath f1 = absPath f0 \<and> realPath f1 = realPath f0 \<and> realSize f1 = realSize f0 \<and>
    contextExpanded f1 = contextExpanded f0 \<and> variableImports f1 = variableImports f0 \<and>
    es = (if isJs \<or> endsWith (absPath f0) ''json'' then [ReadFile (absPath f0)] else []) \<and>
    (if isJs \<or> endsWith (absPath f0) ''json''
     then \<exists>text. readFile env (absPath f0) = Inr text \<and> contents f1 = Some text
     else contents f1 = contents f0)"
proof (cases "isJs \<or> endsWith (absPath f0) ''json''")
  case True
  with read_contents_result [OF assms] obtain code where "readFile env (absPath f0) = Inr code"
    "es = [ReadFile (absPath f0)]" "f1 = f0\<lparr>contents := Some code\<rparr>"
    by auto
  with True show ?thesis by simp
next
  case False
  with read_contents_result [OF assms] have "es = []" "f1 = f0" by simp_all
  with False show ?thesis by simp
qed

lemma gather_fields:
  assumes "gather env isJs f1 = Inr f2"
  shows "absPath f2 = absPath f1 \<and> realPath f2 = realPath f1 \<and> realSize f2 = realSize f1 \<and>
    contextExpanded f2 = contextExpanded f1 \<and> contents f2 = contents f1 \<and>
    (if isJs
     then \<exists>pr. gatherDependencies env (contents f1) (endsWith (absPath f1) ''.mjs'') = Inr pr \<and>
            variableImports f2 = pr_variable pr
     else variableImports f2 = variableImports f1)"
proof (cases isJs)
  case True
  with gather_result [OF assms] obtain pr where
    "gatherDependencies env (contents f1) (endsWith (absPath f1) ''.mjs'') = Inr pr"
    "f2 = f1\<lparr>deps := assign (deps f1) (pr_deps pr), variableImports := pr_variable pr\<rparr>"
    by auto
  with True show ?thesis by simp
next
  case False
  with gather_result [OF assms] have "f2 = f1" by simp
  with False show ?thesis by simp
qed


lemma load_Loaded_stages:
  assumes "load env wd request opts = (es, Inr (Loaded f))"
  obtains es2 f2 f3 where
    "truthy (res_absPath (resolve env wd request))"
    "es = (if isJs_of (res_absPath (resolve env wd request)) opts \<or>
             endsWith (res_absPath (resolve env wd request)) ''json''
           then [ReadFile (res_absPath (resolve env wd request))] else []) @ es2"
    "absPath f2 = res_absPath (resolve env wd request)"
    "realPath f2 = None" "realSize f2 = None" "contextExpanded f2 = False"
    "if isJs_of (res_absPath (resolve env wd request)) opts \<or>
        endsWith (res_absPath (resolve env wd request)) ''json''
     then \<exists>text. readFile env (res_absPath (resolve env wd request)) = Inr text \<and>
            contents f2 = Some text
     else contents f2 = None"
    "if isJs_of (res_absPath (resolve env wd request)) opts
     then \<exists>text pr. readFile env (res_absPath (resolve env wd request)) = Inr text \<and>
            gatherDependencies env (Some text)
              (endsWith (res_absPath (resolve env wd request)) ''.mjs'') = Inr pr \<and>
            variableImports f2 = pr_variable pr
     else variableImports f2 = False"
    "expansions env request (resolve env wd request) opts f2 = (es2, Inr f3)"
    "stat_file env opts f3 = Inr f"
proof -
  let ?p = "res_absPath (resolve env wd request)"
  let ?f0 = "(createFile ?p)\<lparr>absPath := ?p\<rparr> :: 'a File"
  let ?reads = "isJs_of ?p opts \<or> endsWith ?p ''json''"
  from assms obtain es1 es2 f1 f2 f3 where t: "truthy ?p"
    and rd: "read_contents env (isJs_of ?p opts) ?f0 = (es1, Inr f1)"
    and ga: "gather env (isJs_of ?p opts) f1 = Inr f2"
    and ex: "expansions env request (resolve env wd request) opts f2 = (es2, Inr f3)"
    and st: "stat_file env opts f3 = Inr f"
    and es: "es = es1 @ es2"
    by (rule load_LoadedE)
  have f0: "absPath ?f0 = ?p" "realPath ?f0 = None" "realSize ?f0 = None"
    "contextExpanded ?f0 = False" "contents ?f0 = None" "variableImports ?f0 = False"
    by (simp_all add: createFile_def)
  from read_contents_fields [OF rd] have
    f1: "absPath f1 = ?p" "realPath f1 = None" "realSize f1 = None"
      "contextExpanded f1 = False" "variableImports f1 = False"
    and e1: "es1 = (if ?reads then [ReadFile ?p] else [])"
    and c1: "if ?reads then \<exists>text. readFile env ?p = Inr text \<and> contents f1 = Some text
       else contents f1 = None"
    unfolding f0 by blast+
  from gather_fields [OF ga] have
    f2: "absPath f2 = ?p" "realPath f2 = None" "realSize f2 = None"
      "contextExpanded f2 = False" "contents f2 = contents f1"
    and g2: "if isJs_of ?p opts
     then \<exists>pr. gatherDependencies env (contents f1) (endsWith ?p ''.mjs'') = Inr pr \<and>
            variableImports f2 = pr_variable pr
     else variableImports f2 = False"
    unfolding f1 by blast+
  have c2: "if ?reads then \<exists>text. readFile env ?p = Inr text \<and> contents f2 = Some text
       else contents f2 = None"
    using c1 unfolding f2(5) .
  have v2: "if isJs_of ?p opts
     then \<exists>text pr. readFile env ?p = Inr text \<and>
            gatherDependencies env (Some text) (endsWith ?p ''.mjs'') = Inr pr \<and>
            variableImports f2 = pr_variable pr
     else variableImports f2 = False"
  proof (cases "isJs_of ?p opts")
    case True
    with c1 obtain code where code: "readFile env ?p = Inr code" "contents f1 = Some code"
      by auto
    from g2 True obtain pr where
      "gatherDependencies env (contents f1) (endsWith ?p ''.mjs'') = Inr pr"
      "variableImports f2 = pr_variable pr"
      by auto
    with code True show ?thesis by auto
  next
    case False
    with g2 show ?thesis by simp
  qed
  have es': "es = (if ?reads then [ReadFile ?p] else []) @ es2"
    by (simp only: es e1)
  from t es' f2(1-4) c2 v2 ex st show thesis by (rule that)
qed


subsection \<open>load\<close>

text \<open>
  C8. Symlink handling: a File returned by \<^verbatim>\<open>load\<close> has the resolved path as \<^verbatim>\<open>absPath\<close>
  and the size that \<^verbatim>\<open>lstat\<close> reports for it as \<^verbatim>\<open>size\<close>. When \<^verbatim>\<open>lstat\<close> reports a symbolic
  link, \<^verbatim>\<open>realPath\<close> is the path \<^verbatim>\<open>realpath\<close> gives and \<^verbatim>\<open>realSize\<close> the size \<^verbatim>\<open>stat\<close>
  gives (the target's); otherwise \<^verbatim>\<open>realPath\<close> and \<^verbatim>\<open>realSize\<close> are absent.
\<close>

theorem load_symlink:
  assumes "load env wd request opts = (es, Inr (Loaded f))"
  shows "absPath f = res_absPath (resolve env wd request) \<and>
     (\<exists>st. lstat env (absPath f) = Inr st \<and> size f = Some (st_size st) \<and>
        (if isSymbolicLink st
         then \<exists>path absStat. realpath env (absPath f) = Inr path \<and>
                stat env (absPath f) = Inr absStat \<and>
                realPath f = Some path \<and> realSize f = Some (st_size absStat)
         else realPath f = None \<and> realSize f = None))"
proof -
  from assms obtain es2 f2 f3 where f2: "absPath f2 = res_absPath (resolve env wd request)"
      "realPath f2 = None" "realSize f2 = None"
    and ex: "expansions env request (resolve env wd request) opts f2 = (es2, Inr f3)"
    and st: "stat_file env opts f3 = Inr f"
    by (rule load_Loaded_stages)
  note e = expansions_result(1,3,4) [OF ex]
  have a: "absPath f = absPath f3" using stat_file_fields [OF st] by blast
  from stat_file_links [OF st] show ?thesis
    unfolding a e f2 by simp
qed

text \<open>
  C10. Which files are read: in a load that returns a File, \<^verbatim>\<open>readFile\<close> is called on
  the resolved path exactly when the path ends with \<^verbatim>\<open>.js\<close> or \<^verbatim>\<open>.mjs\<close>, or
  \<^verbatim>\<open>options.isEntry\<close> is set, or the path ends with \<^verbatim>\<open>json\<close>, that is its last four
  characters are \<^verbatim>\<open>json\<close>, with no dot asked for. No other file is read. The File holds
  the text when it was read and \<^verbatim>\<open>options.loadContent\<close> is set, and no contents
  otherwise.
\<close>

theorem load_reads_contents:
  assumes "load env wd request opts = (es, Inr (Loaded f))"
  shows "(ReadFile (absPath f) \<in> set es \<longleftrightarrow>
            endsWith (absPath f) ''.js'' \<or> endsWith (absPath f) ''.mjs'' \<or> isEntry opts \<or>
            endsWith (absPath f) ''json'') \<and>
         (endsWith (absPath f) ''json'' \<longleftrightarrow>
            4 \<le> length (absPath f) \<and> drop (length (absPath f) - 4) (absPath f) = ''json'') \<and>
         (\<forall>q. ReadFile q \<in> set es \<longrightarrow> q = absPath f) \<and>
         (if ReadFile (absPath f) \<in> set es \<and> loadContent opts
          then \<exists>text. readFile env (absPath f) = Inr text \<and> contents f = Some text
          else contents f = None)"
proof -
  let ?p = "res_absPath (resolve env wd request)"
  let ?reads = "isJs_of ?p opts \<or> endsWith ?p ''json''"
  from assms obtain es2 f2 f3 where
    es: "es = (if ?reads then [ReadFile ?p] else []) @ es2"
    and f2: "absPath f2 = ?p"
    and c2: "if ?reads then \<exists>text. readFile env ?p = Inr text \<and> contents f2 = Some text
       else contents f2 = None"
    and ex: "expansions env request (resolve env wd request) opts f2 = (es2, Inr f3)"
    and st: "stat_file env opts f3 = Inr f"
    by (rule load_Loaded_stages)
  note e = expansions_result(1,2,8) [OF ex]
  have p: "absPath f = ?p"
    using stat_file_fields [OF st] e(1) f2 by simp
  have no: "ReadFile q \<notin> set es2" for q
    using e(3) by (auto simp: is_expand_def)
  have rd: "ReadFile q \<in> set es \<longleftrightarrow> ?reads \<and> q = ?p" for q
    using no by (auto simp: es)
  have c: "contents f = (if loadContent opts then contents f2 else None)"
    using stat_file_fields [OF st] e(2) by simp
  have j: "endsWith s ''json'' \<longleftrightarrow> 4 \<le> length s \<and> drop (length s - 4) s = ''json''" for s
  proof
    assume "endsWith s ''json''"
    then obtain zs where "s = zs @ ''json''" by (auto simp: endsWith_def suffix_def)
    then show "4 \<le> length s \<and> drop (length s - 4) s = ''json''" by simp
  next
    assume a: "4 \<le> length s \<and> drop (length s - 4) s = ''json''"
    have "s = take (length s - 4) s @ drop (length s - 4) s" by simp
    with a have "s = take (length s - 4) s @ ''json''" by simp
    then show "endsWith s ''json''" unfolding endsWith_def suffix_def by blast
  qed
  have one: "ReadFile ?p \<in> set es \<longleftrightarrow>
      endsWith ?p ''.js'' \<or> endsWith ?p ''.mjs'' \<or> isEntry opts \<or> endsWith ?p ''json''"
    by (simp add: rd isJs_of_def)
  have three: "\<forall>q. ReadFile q \<in> set es \<longrightarrow> q = ?p"
    by (simp add: rd)
  have four: "if ReadFile ?p \<in> set es \<and> loadContent opts
      then \<exists>text. readFile env ?p = Inr text \<and> contents f = Some text
      else contents f = None"
  proof (cases "?reads")
    case True
    with c2 c rd show ?thesis by simp
  next
    case False
    with c2 c rd show ?thesis by simp
  qed
  show ?thesis
    unfolding p using one j [of ?p] three four by blast
qed



text \<open>
  C6. When the resolved file is JS-like, its text was read and \<^verbatim>\<open>gatherDependencies\<close>
  throws on it, \<^verbatim>\<open>load\<close> returns (it does not throw) the value \<^verbatim>\<open>{ warning }\<close> whose message
  is \<^verbatim>\<open>Error parsing file: "\<close>, the absolute path of the file, a closing quote, a
  newline and the stack of the exception.
\<close>

theorem load_parse_failure:
  assumes "res_absPath (resolve env wd request) = p" and "truthy p"
    and "isJs_of p opts"
    and "readFile env p = Inr code"
    and "gatherDependencies env (Some code) (endsWith p ''.mjs'') = Inl stack"
  shows "load env wd request opts =
     ([ReadFile p],
      Inr (Warning (''Error parsing file: \"'' @ p @ ''\"'' @ [CHR 0x0A] @ stack)))"
proof -
  let ?f0 = "(createFile p)\<lparr>absPath := p\<rparr> :: 'a File"
  have rd: "read_contents env True ?f0 = ([ReadFile p], Inr (?f0\<lparr>contents := Some code\<rparr>))"
    by (simp add: read_contents_def io_bind_def await_def io_return_def assms(4))
  have ga: "gather env True (?f0\<lparr>contents := Some code\<rparr>) =
      Inl (''Error parsing file: \"'' @ p @ ''\"'' @ [CHR 0x0A] @ stack)"
    by (simp add: gather_def assms(5) parse_error_def)
  show ?thesis
    using assms(2,3) by (simp add: load_def assms(1) Let_def io_bind_def rd ga io_return_def)
qed

text \<open>
  C5, as amended. In a load that returns a File, at most one call of \<^verbatim>\<open>expand\<close> that is
  followed by \<^verbatim>\<open>file.contextExpanded = true\<close> is made (the one of the package branch
  with the patterns of \<^verbatim>\<open>nodeModuleGlobs\<close>, or the one of the inherited context), and
  \<^verbatim>\<open>contextExpanded\<close> is true in the File exactly when such a call was made. The expansion
  of \<^verbatim>\<open>extraGlobs\<close> does not count.
\<close>

theorem load_contextExpanded:
  assumes "load env wd request opts = (es, Inr (Loaded f))"
  shows "length (filter sets_flag es) \<le> 1 \<and>
         (contextExpanded f \<longleftrightarrow> (\<exists>e \<in> set es. sets_flag e))"
proof -
  from assms obtain es2 f2 f3 where
    es: "es = (if isJs_of (res_absPath (resolve env wd request)) opts \<or>
             endsWith (res_absPath (resolve env wd request)) ''json''
           then [ReadFile (res_absPath (resolve env wd request))] else []) @ es2"
    and f2: "contextExpanded f2 = False"
    and ex: "expansions env request (resolve env wd request) opts f2 = (es2, Inr f3)"
    and st: "stat_file env opts f3 = Inr f"
    by (rule load_Loaded_stages)
  note e = expansions_result(6,7) [OF ex]
  have c: "contextExpanded f = contextExpanded f3"
    using stat_file_fields [OF st] by blast
  have fl: "filter sets_flag es = filter sets_flag es2"
    by (simp add: es sets_flag_def)
  have ex': "(\<exists>e \<in> set es. sets_flag e) \<longleftrightarrow> (\<exists>e \<in> set es2. sets_flag e)"
    by (auto simp: es sets_flag_def)
  show ?thesis
    unfolding c fl ex' using e f2 by simp
qed

text \<open>
  C7. The trigger policy. In a load that returns a File, \<open>expandVariable\<close> holds exactly
  when \<^verbatim>\<open>options.expand\<close> is \<^verbatim>\<open>'variable'\<close> and the extractor, run on the text of the
  (JS-like) file, reported variable imports. In the package branch, the expansion with the
  patterns of \<^verbatim>\<open>nodeModuleGlobs\<close> is made exactly when \<open>expandVariable\<close> holds or
  \<^verbatim>\<open>options.expand\<close> is \<^verbatim>\<open>'all'\<close>: with \<^verbatim>\<open>'all'\<close> it needs no variable import. Outside the
  package branch the only expansion is that of the inherited context, made exactly when
  \<open>expandVariable\<close> holds and the context has a module root and is not yet expanded.
\<close>

theorem expansion_trigger_policy:
  assumes "load env wd request opts = (es, Inr (Loaded f))"
  shows "(expandVariable opts f \<longleftrightarrow>
            expand_opt opts = ExpandVariable \<and> isJs_of (absPath f) opts \<and>
            (\<exists>text pr. readFile env (absPath f) = Inr text \<and>
               gatherDependencies env (Some text) (endsWith (absPath f) ''.mjs'') = Inr pr \<and>
               pr_variable pr)) \<and>
         (if package_applies env request (resolve env wd request)
          then (expanded_at Allowlist es \<longleftrightarrow> expandVariable opts f \<or> expand_opt opts = ExpandAll) \<and>
               \<not> expanded_at Inherited es
          else (expanded_at Inherited es \<longleftrightarrow> expandVariable opts f \<and> inherited opts) \<and>
               \<not> expanded_at Allowlist es)"
proof -
  let ?p = "res_absPath (resolve env wd request)"
  from assms obtain es2 f2 f3 where
    es: "es = (if isJs_of ?p opts \<or> endsWith ?p ''json'' then [ReadFile ?p] else []) @ es2"
    and f2: "absPath f2 = ?p"
    and v2: "if isJs_of ?p opts
     then \<exists>text pr. readFile env ?p = Inr text \<and>
            gatherDependencies env (Some text) (endsWith ?p ''.mjs'') = Inr pr \<and>
            variableImports f2 = pr_variable pr
     else variableImports f2 = False"
    and ex: "expansions env request (resolve env wd request) opts f2 = (es2, Inr f3)"
    and st: "stat_file env opts f3 = Inr f"
    by (rule load_Loaded_stages)
  note e = expansions_result(1,5) [OF ex]
  have p: "absPath f = ?p" and v: "variableImports f = variableImports f2"
    using stat_file_fields [OF st] e f2 by simp_all
  have ev: "expandVariable opts f = expandVariable opts f2"
    by (simp add: expandVariable_def v)
  have rep: "variableImports f2 \<longleftrightarrow> isJs_of ?p opts \<and>
      (\<exists>text pr. readFile env ?p = Inr text \<and>
         gatherDependencies env (Some text) (endsWith ?p ''.mjs'') = Inr pr \<and> pr_variable pr)"
  proof (cases "isJs_of ?p opts")
    case True
    with v2 obtain code pr where "readFile env ?p = Inr code"
      "gatherDependencies env (Some code) (endsWith ?p ''.mjs'') = Inr pr"
      "variableImports f2 = pr_variable pr"
      by auto
    with True show ?thesis by auto
  next
    case False
    with v2 show ?thesis by simp
  qed
  have one: "expandVariable opts f \<longleftrightarrow>
      expand_opt opts = ExpandVariable \<and> isJs_of ?p opts \<and>
      (\<exists>text pr. readFile env ?p = Inr text \<and>
         gatherDependencies env (Some text) (endsWith ?p ''.mjs'') = Inr pr \<and> pr_variable pr)"
    unfolding ev using rep by (simp add: expandVariable_def)
  have tr: "expanded_at s es = expanded_at s es2" for s
    by (simp add: es)
  have two: "if package_applies env request (resolve env wd request)
      then (expanded_at Allowlist es \<longleftrightarrow> expandVariable opts f \<or> expand_opt opts = ExpandAll) \<and>
           \<not> expanded_at Inherited es
      else (expanded_at Inherited es \<longleftrightarrow> expandVariable opts f \<and> inherited opts) \<and>
           \<not> expanded_at Allowlist es"
    unfolding tr ev using expansions_result(9,10) [OF ex]
    by (simp add: expandAll_def)
  from one two show ?thesis unfolding p by blast
qed

subsection \<open>The sample installation, evaluated\<close>

lemma sample_load_missing:
  "load sample_env ''/app'' ''./missing'' defaultOptions =
     ([], Inr (Warning ''Cannot resolve ./missing in /app''))"
  by code_simp

lemma sample_load_broken:
  "load sample_env ''/app'' ''./broken.js'' defaultOptions =
     ([ReadFile ''/app/broken.js''],
      Inr (Warning (''Error parsing file: \"/app/broken.js\"'' @ [CHR 0x0A] @
         ''SyntaxError [1:8]: Unexpected token'')))"
  by code_simp

lemma sample_load_datajson:
  "load sample_env ''/app'' ''./datajson'' defaultOptions =
     ([ReadFile ''/app/datajson''],
      Inr (Loaded ((createFile ''/app/datajson'')\<lparr>contents := Some ''{}'', size := Some 20\<rparr>)))"
  by code_simp

lemma sample_load_logo:
  "load sample_env ''/app'' ''./logo.png'' defaultOptions =
     ([], Inr (Loaded ((createFile ''/app/logo.png'')\<lparr>size := Some 20\<rparr>)))"
  by code_simp

lemma sample_load_link:
  "load sample_env ''/app'' ''./link.js''
     (defaultOptions\<lparr>expand_opt := ExpandVariable,
        context_opt := Some \<lparr>ctx_moduleRoot = ''/app'', ctx_globs = None, ctx_expanded = False\<rparr>\<rparr>) =
     ([ReadFile ''/app/link.js'', Expand Inherited ''/app'' ''/app'' [''**/*'']],
      Inr (Loaded ((createFile ''/app/link.js'')
        \<lparr>contents := Some ''require(name)'', variableImports := True, contextExpanded := True,
         realPath := Some ''/app/src/name.js'', realSize := Some 13, size := Some 14\<rparr>)))"
  by code_simp

lemma sample_load_pkg:
  "load sample_env ''/app'' ''pkg'' defaultOptions =
     ([ReadFile ''/app/node_modules/pkg/lib/index.js'',
       Expand Extra ''/app/node_modules/pkg/lib'' ''/app/node_modules/pkg'' [''assets/**'']],
      Inr (Loaded ((createFile ''/app/node_modules/pkg/lib/index.js'')
        \<lparr>contents := Some ''require(`lodash/fp`)'',
         deps := [(''lodash/fp'', None), (''./../package.json'', None),
                  (''./../assets/logo.png'', None), (''left-pad'', None)],
         package := Some pkg_manifest, moduleRoot := Some ''/app/node_modules/pkg'',
         size := Some 20\<rparr>)))"
  by code_simp

lemma sample_load_pkg_all:
  "load sample_env ''/app'' ''pkg'' (defaultOptions\<lparr>expand_opt := ExpandAll\<rparr>) =
     ([ReadFile ''/app/node_modules/pkg/lib/index.js'',
       Expand Allowlist ''/app/node_modules/pkg/lib'' ''/app/node_modules/pkg'' [''lib/**''],
       Expand Extra ''/app/node_modules/pkg/lib'' ''/app/node_modules/pkg'' [''assets/**'']],
      Inr (Loaded ((createFile ''/app/node_modules/pkg/lib/index.js'')
        \<lparr>contents := Some ''require(`lodash/fp`)'',
         deps := [(''lodash/fp'', None), (''./../package.json'', None),
                  (''./index.js'', None), (''./util.js'', None), (''left-pad'', None),
                  (''./../assets/logo.png'', None)],
         package := Some pkg_manifest, moduleRoot := Some ''/app/node_modules/pkg'',
         contextExpanded := True, size := Some 20\<rparr>)))"
  by code_simp

lemma sample_load_odd:
  "load sample_env ''/app'' ''odd'' (defaultOptions\<lparr>expand_opt := ExpandAll\<rparr>) =
     ([ReadFile ''/app/node_modules/odd/index.js'',
       Expand Allowlist ''/app/node_modules/odd'' ''/app/node_modules/odd'' [''**/*'']],
      Inr (Loaded ((createFile ''/app/node_modules/odd/index.js'')
        \<lparr>contents := Some ''module.exports = 1'',
         deps := [(''./package.json'', None), (''left-pad'', None),
                  (''constructor'', Some ''Object.prototype.constructor'')],
         package := Some odd_manifest, moduleRoot := Some ''/app/node_modules/odd'',
         contextExpanded := True, size := Some 20\<rparr>)))"
  by code_simp

subsection \<open>Instances\<close>

theorem expand_idempotent_witness:
  "expand sample_env sample_file ''/app/node_modules/pkg'' ''/app/node_modules/pkg'' [''lib/**'']
     = Inr (sample_file\<lparr>deps := [(''lodash/fp'', None),
        (''./lib/util.js'', Some ''/app/node_modules/pkg/lib/util.js''),
        (''./lib/index.js'', None), (''left-pad'', None)]\<rparr>) \<and>
   expand sample_env (sample_file\<lparr>deps := [(''lodash/fp'', None),
        (''./lib/util.js'', Some ''/app/node_modules/pkg/lib/util.js''),
        (''./lib/index.js'', None), (''left-pad'', None)]\<rparr>)
      ''/app/node_modules/pkg'' ''/app/node_modules/pkg'' [''lib/**'']
     = Inr (sample_file\<lparr>deps := [(''lodash/fp'', None),
        (''./lib/util.js'', Some ''/app/node_modules/pkg/lib/util.js''),
        (''./lib/index.js'', None), (''left-pad'', None)]\<rparr>) \<and>
   map_of (deps sample_file) ''./lib/util.js'' = Some (Some ''/app/node_modules/pkg/lib/util.js'')"
  using expand_idempotent [OF sample_expand] sample_expand
  by (simp add: sample_file_def)



theorem load_parse_failure_witness:
  "res_absPath (resolve sample_env ''/app'' ''./broken.js'') = ''/app/broken.js'' \<and>
   truthy ''/app/broken.js'' \<and> isJs_of ''/app/broken.js'' defaultOptions \<and>
   readFile sample_env ''/app/broken.js'' = Inr ''require('' \<and>
   gatherDependencies sample_env (Some ''require('') (endsWith ''/app/broken.js'' ''.mjs'') =
     Inl ''SyntaxError [1:8]: Unexpected token'' \<and>
   load sample_env ''/app'' ''./broken.js'' defaultOptions =
     ([ReadFile ''/app/broken.js''],
      Inr (Warning (''Error parsing file: \"/app/broken.js\"'' @ [CHR 0x0A] @
         ''SyntaxError [1:8]: Unexpected token'')))"
proof -
  have a: "res_absPath (resolve sample_env ''/app'' ''./broken.js'') = ''/app/broken.js''"
    by code_simp
  have b: "truthy ''/app/broken.js''" by (simp add: truthy_def)
  have c: "isJs_of ''/app/broken.js'' defaultOptions" by code_simp
  have d: "readFile sample_env ''/app/broken.js'' = Inr ''require(''" by code_simp
  have e: "gatherDependencies sample_env (Some ''require('')
      (endsWith ''/app/broken.js'' ''.mjs'') = Inl ''SyntaxError [1:8]: Unexpected token''"
    by code_simp
  from load_parse_failure [OF a b c d e] a b c d e show ?thesis by simp
qed

theorem load_symlink_witness:
  "load sample_env ''/app'' ''./link.js''
     (defaultOptions\<lparr>expand_opt := ExpandVariable,
        context_opt := Some \<lparr>ctx_moduleRoot = ''/app'', ctx_globs = None, ctx_expanded = False\<rparr>\<rparr>) =
     ([ReadFile ''/app/link.js'', Expand Inherited ''/app'' ''/app'' [''**/*'']],
      Inr (Loaded ((createFile ''/app/link.js'')
        \<lparr>contents := Some ''require(name)'', variableImports := True, contextExpanded := True,
         realPath := Some ''/app/src/name.js'', realSize := Some 13, size := Some 14\<rparr>))) \<and>
   lstat sample_env ''/app/link.js'' = Inr \<lparr>isSymbolicLink = True, st_size = 14\<rparr> \<and>
   realpath sample_env ''/app/link.js'' = Inr ''/app/src/name.js'' \<and>
   stat sample_env ''/app/link.js'' = Inr \<lparr>isSymbolicLink = False, st_size = 13\<rparr> \<and>
   load sample_env ''/app'' ''./logo.png'' defaultOptions =
     ([], Inr (Loaded ((createFile ''/app/logo.png'')\<lparr>size := Some 20\<rparr>))) \<and>
   lstat sample_env ''/app/logo.png'' = Inr \<lparr>isSymbolicLink = False, st_size = 20\<rparr> \<and>
   realPath ((createFile ''/app/logo.png'' :: string File)\<lparr>size := Some 20\<rparr>) = None \<and>
   realSize ((createFile ''/app/logo.png'' :: string File)\<lparr>size := Some 20\<rparr>) = None"
proof -
  have l: "lstat sample_env ''/app/link.js'' = Inr \<lparr>isSymbolicLink = True, st_size = 14\<rparr>"
    and r: "realpath sample_env ''/app/link.js'' = Inr ''/app/src/name.js''"
    and s: "stat sample_env ''/app/link.js'' = Inr \<lparr>isSymbolicLink = False, st_size = 13\<rparr>"
    and l': "lstat sample_env ''/app/logo.png'' = Inr \<lparr>isSymbolicLink = False, st_size = 20\<rparr>"
    by code_simp+
  have a: "absPath ((createFile ''/app/logo.png'' :: string File)\<lparr>size := Some 20\<rparr>) =
      ''/app/logo.png''"
    by (simp add: createFile_def)
  from load_symlink [OF sample_load_logo]
  have n: "realPath ((createFile ''/app/logo.png'' :: string File)\<lparr>size := Some 20\<rparr>) = None \<and>
      realSize ((createFile ''/app/logo.png'' :: string File)\<lparr>size := Some 20\<rparr>) = None"
    unfolding a l' by (simp add: createFile_def)
  from load_symlink [OF sample_load_link] sample_load_link sample_load_logo l r s l' n
  show ?thesis by blast
qed

theorem load_reads_contents_witness:
  "load sample_env ''/app'' ''./datajson'' defaultOptions =
     ([ReadFile ''/app/datajson''],
      Inr (Loaded ((createFile ''/app/datajson'')\<lparr>contents := Some ''{}'', size := Some 20\<rparr>))) \<and>
   endsWith ''/app/datajson'' ''json'' \<and> \<not> endsWith ''/app/datajson'' ''.json'' \<and>
   \<not> endsWith ''/app/datajson'' ''.js'' \<and> \<not> endsWith ''/app/datajson'' ''.mjs'' \<and>
   \<not> isEntry defaultOptions \<and> loadContent defaultOptions \<and>
   readFile sample_env ''/app/datajson'' = Inr ''{}'' \<and>
   load sample_env ''/app'' ''./logo.png'' defaultOptions =
     ([], Inr (Loaded ((createFile ''/app/logo.png'')\<lparr>size := Some 20\<rparr>))) \<and>
   \<not> endsWith ''/app/logo.png'' ''json'' \<and>
   contents ((createFile ''/app/logo.png'' :: string File)\<lparr>size := Some 20\<rparr>) = None"
  using load_reads_contents [OF sample_load_datajson] load_reads_contents [OF sample_load_logo]
    sample_load_datajson sample_load_logo
  by (simp add: createFile_def endsWith_def suffix_to_prefix defaultOptions_def sample_env_def
      sample_readFile_def)

text \<open>
  C5, as the claim states it: \<^verbatim>\<open>contextExpanded\<close> is true after \<^verbatim>\<open>load\<close> exactly when a
  glob-based expansion has run. Loading \<^verbatim>\<open>pkg\<close> with the default options expands the
  patterns of \<^verbatim>\<open>extraGlobs\<close>, and \<^verbatim>\<open>contextExpanded\<close> is not true in the File returned.
\<close>

theorem contextExpanded_counterexample:
  "list_ex is_expand (fst (load sample_env ''/app'' ''pkg'' defaultOptions)) \<and>
   map_option contextExpanded (loaded (load sample_env ''/app'' ''pkg'' defaultOptions)) =
     Some False"
  by (simp add: sample_load_pkg loaded_def is_expand_def createFile_def)

theorem load_contextExpanded_witness:
  "load sample_env ''/app'' ''pkg'' (defaultOptions\<lparr>expand_opt := ExpandAll\<rparr>) =
     ([ReadFile ''/app/node_modules/pkg/lib/index.js'',
       Expand Allowlist ''/app/node_modules/pkg/lib'' ''/app/node_modules/pkg'' [''lib/**''],
       Expand Extra ''/app/node_modules/pkg/lib'' ''/app/node_modules/pkg'' [''assets/**'']],
      Inr (Loaded ((createFile ''/app/node_modules/pkg/lib/index.js'')
        \<lparr>contents := Some ''require(`lodash/fp`)'',
         deps := [(''lodash/fp'', None), (''./../package.json'', None),
                  (''./index.js'', None), (''./util.js'', None), (''left-pad'', None),
                  (''./../assets/logo.png'', None)],
         package := Some pkg_manifest, moduleRoot := Some ''/app/node_modules/pkg'',
         contextExpanded := True, size := Some 20\<rparr>))) \<and>
   length (filter sets_flag
     [ReadFile ''/app/node_modules/pkg/lib/index.js'',
       Expand Allowlist ''/app/node_modules/pkg/lib'' ''/app/node_modules/pkg'' [''lib/**''],
       Expand Extra ''/app/node_modules/pkg/lib'' ''/app/node_modules/pkg'' [''assets/**'']]) = 1 \<and>
   sets_flag (Expand Allowlist ''/app/node_modules/pkg/lib'' ''/app/node_modules/pkg'' [''lib/**''])"
  using load_contextExpanded [OF sample_load_pkg_all] sample_load_pkg_all
  by (simp add: sets_flag_def)

theorem expansion_trigger_policy_witness:
  "load sample_env ''/app'' ''pkg'' (defaultOptions\<lparr>expand_opt := ExpandAll\<rparr>) =
     ([ReadFile ''/app/node_modules/pkg/lib/index.js'',
       Expand Allowlist ''/app/node_modules/pkg/lib'' ''/app/node_modules/pkg'' [''lib/**''],
       Expand Extra ''/app/node_modules/pkg/lib'' ''/app/node_modules/pkg'' [''assets/**'']],
      Inr (Loaded ((createFile ''/app/node_modules/pkg/lib/index.js'')
        \<lparr>contents := Some ''require(`lodash/fp`)'',
         deps := [(''lodash/fp'', None), (''./../package.json'', None),
                  (''./index.js'', None), (''./util.js'', None), (''left-pad'', None),
                  (''./../assets/logo.png'', None)],
         package := Some pkg_manifest, moduleRoot := Some ''/app/node_modules/pkg'',
         contextExpanded := True, size := Some 20\<rparr>))) \<and>
   package_applies sample_env ''pkg'' (resolve sample_env ''/app'' ''pkg'') \<and>
   expanded_at Allowlist
     [ReadFile ''/app/node_modules/pkg/lib/index.js'',
       Expand Allowlist ''/app/node_modules/pkg/lib'' ''/app/node_modules/pkg'' [''lib/**''],
       Expand Extra ''/app/node_modules/pkg/lib'' ''/app/node_modules/pkg'' [''assets/**'']] \<and>
   load sample_env ''/app'' ''./link.js''
     (defaultOptions\<lparr>expand_opt := ExpandVariable,
        context_opt := Some \<lparr>ctx_moduleRoot = ''/app'', ctx_globs = None, ctx_expanded = False\<rparr>\<rparr>) =
     ([ReadFile ''/app/link.js'', Expand Inherited ''/app'' ''/app'' [''**/*'']],
      Inr (Loaded ((createFile ''/app/link.js'')
        \<lparr>contents := Some ''require(name)'', variableImports := True, contextExpanded := True,
         realPath := Some ''/app/src/name.js'', realSize := Some 13, size := Some 14\<rparr>))) \<and>
   \<not> package_applies sample_env ''./link.js'' (resolve sample_env ''/app'' ''./link.js'') \<and>
   expanded_at Inherited [ReadFile ''/app/link.js'', Expand Inherited ''/app'' ''/app'' [''**/*'']]"
proof -
  have a: "package_applies sample_env ''pkg'' (resolve sample_env ''/app'' ''pkg'')"
    by code_simp
  have b: "\<not> package_applies sample_env ''./link.js'' (resolve sample_env ''/app'' ''./link.js'')"
    by code_simp
  from expansion_trigger_policy [OF sample_load_pkg_all]
    expansion_trigger_policy [OF sample_load_link] a b sample_load_pkg_all sample_load_link
  show ?thesis by (simp add: expandVariable_def inherited_def truthy_def createFile_def)
qed

text \<open>
  C2. Self-exclusion: every match of globby whose absolute path is the path of the File
  is to be dropped. The filter of \<^verbatim>\<open>expand\<close> joins \<open>baseDir\<close> with a path that is relative to
  \<open>fileDir\<close>. Loading \<^verbatim>\<open>pkg\<close> with \<^verbatim>\<open>expand: 'all'\<close>, where the main file is in \<^verbatim>\<open>lib\<close> and
  the patterns are matched in the package root: the match \<^verbatim>\<open>lib/index.js\<close> is the File
  itself, it is not filtered out, and the File returned has the key \<^verbatim>\<open>./index.js\<close>, which
  from the directory of the File is the File's own path.
\<close>

theorem load_keeps_self_match:
  "posix_join ''/app/node_modules/pkg'' ''lib/index.js'' = ''/app/node_modules/pkg/lib/index.js'' \<and>
   relDeps sample_env (createFile ''/app/node_modules/pkg/lib/index.js'')
     ''/app/node_modules/pkg/lib'' ''/app/node_modules/pkg'' [''lib/index.js''] = [''./index.js''] \<and>
   posix_join ''/app/node_modules/pkg/lib'' ''./index.js'' = ''/app/node_modules/pkg/lib/index.js'' \<and>
   map_option (\<lambda>f. (absPath f, map_of (deps f) ''./index.js''))
     (loaded (load sample_env ''/app'' ''pkg'' (defaultOptions\<lparr>expand_opt := ExpandAll\<rparr>))) =
     Some (''/app/node_modules/pkg/lib/index.js'', Some None)"
proof -
  have a: "posix_join ''/app/node_modules/pkg'' ''lib/index.js'' =
      ''/app/node_modules/pkg/lib/index.js''"
    by code_simp
  have b: "relDeps sample_env (createFile ''/app/node_modules/pkg/lib/index.js'')
     ''/app/node_modules/pkg/lib'' ''/app/node_modules/pkg'' [''lib/index.js''] = [''./index.js'']"
    by code_simp
  have c: "posix_join ''/app/node_modules/pkg/lib'' ''./index.js'' =
      ''/app/node_modules/pkg/lib/index.js''"
    by code_simp
  have d: "map_option (\<lambda>f. (absPath f, map_of (deps f) ''./index.js''))
     (loaded (load sample_env ''/app'' ''pkg'' (defaultOptions\<lparr>expand_opt := ExpandAll\<rparr>))) =
     Some (''/app/node_modules/pkg/lib/index.js'', Some None)"
    by (simp add: sample_load_pkg_all loaded_def createFile_def)
  from a b c d show ?thesis by blast
qed

text \<open>
  C3. Manifest reconciliation: every declared dependency name that no key present at that
  point starts with is to be a key of \<^verbatim>\<open>file.deps\<close> with the value \<^verbatim>\<open>null\<close>. Loading \<^verbatim>\<open>odd\<close>
  with \<^verbatim>\<open>expand: 'all'\<close>, whose manifest declares \<^verbatim>\<open>left-pad\<close>, \<^verbatim>\<open>constructor\<close> and
  \<^verbatim>\<open>__proto__\<close>: when the declared names are reconciled the only key is \<^verbatim>\<open>./package.json\<close>,
  which starts with none of them. In the File returned \<^verbatim>\<open>left-pad\<close> is \<^verbatim>\<open>null\<close>, but
  \<^verbatim>\<open>constructor\<close> holds the function inherited from \<^verbatim>\<open>Object.prototype\<close>, and \<^verbatim>\<open>__proto__\<close> is
  no key.
\<close>

theorem load_declared_prototype_names:
  "\<not> covered [''./package.json''] ''left-pad'' \<and>
   \<not> covered [''./package.json''] ''constructor'' \<and>
   \<not> covered [''./package.json''] ''__proto__'' \<and>
   map_option (\<lambda>f. (declared f, map fst (deps f), map_of (deps f) ''left-pad'',
        map_of (deps f) ''constructor'', map_of (deps f) ''__proto__''))
     (loaded (load sample_env ''/app'' ''odd'' (defaultOptions\<lparr>expand_opt := ExpandAll\<rparr>))) =
     Some ([''left-pad'', ''constructor'', ''__proto__''],
       [''./package.json'', ''left-pad'', ''constructor''],
       Some None, Some (Some ''Object.prototype.constructor''), None)"
proof -
  have a: "\<not> covered [''./package.json''] ''left-pad''"
    and b: "\<not> covered [''./package.json''] ''constructor''"
    and c: "\<not> covered [''./package.json''] ''__proto__''"
    by (simp_all add: covered_def startsWith_def)
  have d: "map_option (\<lambda>f. (declared f, map fst (deps f), map_of (deps f) ''left-pad'',
        map_of (deps f) ''constructor'', map_of (deps f) ''__proto__''))
     (loaded (load sample_env ''/app'' ''odd'' (defaultOptions\<lparr>expand_opt := ExpandAll\<rparr>))) =
     Some ([''left-pad'', ''constructor'', ''__proto__''],
       [''./package.json'', ''left-pad'', ''constructor''],
       Some None, Some (Some ''Object.prototype.constructor''), None)"
    by (simp add: sample_load_odd loaded_def createFile_def declared_def odd_manifest_def)
  from a b c d show ?thesis by blast
qed

end
